theory Spec2Isabelle
  imports Complex_Main "HOL-Library.Word"
begin

section \<open>The Dynamic Power Limiter of OpenDTU-OnBattery (src/src/PowerLimiter.cpp)\<close>

text \<open>
  A shallow embedding of \<^verbatim>\<open>PowerLimiterClass\<close>. The conventions:
  \<^item> \<^verbatim>\<open>uint32_t\<close> and \<^verbatim>\<open>unsigned long\<close> (the result of \<^verbatim>\<open>millis()\<close>) are
    \<open>32 word\<close>: addition, subtraction and multiplication wrap around as on the ESP32.
  \<^item> \<^verbatim>\<open>int32_t\<close> and \<^verbatim>\<open>int\<close> are \<open>int\<close>. Signed overflow is undefined behaviour in
    C++, so the model agrees with the code wherever the code has a defined result.
  \<^item> \<^verbatim>\<open>float\<close> and \<^verbatim>\<open>double\<close> readings are \<open>real\<close>: the rounding error of the binary
    formats, infinities and NaN are outside the model. The conversions to an integer are
    written out: \<open>c_round\<close> for \<^verbatim>\<open>round()\<close> (half away from zero) and \<open>c_trunc\<close> for a
    cast to an integer type (towards zero).
  \<^item> The member variables of the class are the record \<open>dpl\<close>; every member function takes
    the record and returns it updated. The commands sent to an inverter and the status
    lines printed by \<^verbatim>\<open>announceStatus\<close> are appended to the field \<open>out\<close>. The other
    \<^verbatim>\<open>MessageOutput\<close> lines are log text only and are not recorded, but for the line of
    \<^verbatim>\<open>getLoadCorrectedVoltage\<close>, which that function returns beside its value.
  \<^item> Everything the class reads from its collaborators during one call (configuration,
    clock, inverters, power meter, solar charger, battery, PSU) is the record \<open>env\<close>, one
    snapshot per call. A \<^verbatim>\<open>std::shared_ptr<InverterAbstract>\<close> is the serial number of
    the inverter; its readings are looked up in the snapshot.
\<close>

subsection \<open>Data\<close>

type_synonym uint32 = "32 word"
type_synonym serial_t = nat
type_synonym ChannelNum_t = nat

datatype Status =
    Initializing
  | DisabledByConfig
  | DisabledByMqtt
  | WaitingForValidTimestamp
  | PowerMeterDisabled
  | PowerMeterTimeout
  | PowerMeterPending
  | InverterInvalid
  | InverterChanged
  | InverterOffline
  | InverterCommandsDisabled
  | InverterLimitPending
  | InverterPowerCmdPending
  | InverterDevInfoPending
  | InverterStatsPending
  | UnconditionalSolarPassthrough
  | NoVeDirect
  | Settling
  | Stable

datatype Mode = Normal | Disabled | UnconditionalFullSolarPassthrough

datatype LastCommandSuccess = CMD_OK | CMD_NOK | CMD_PENDING

datatype PowerLimitControlType = AbsolutNonPersistent

text \<open>What the limiter emits: inverter commands and printed status lines, in order.\<close>

datatype event =
    PowerControlRequest serial_t bool
  | ActivePowerControlRequest serial_t int PowerLimitControlType
  | RestartControlRequest serial_t
  | StatusPrinted Status

text \<open>The inverter commands among the events, and the power limit commands among those.\<close>

fun is_command :: "event \<Rightarrow> bool" where
  "is_command (StatusPrinted st) = False"
| "is_command c = True"

fun is_limit_command :: "event \<Rightarrow> bool" where
  "is_limit_command (ActivePowerControlRequest iv limit t) = True"
| "is_limit_command c = False"

text \<open>The fields of \<^verbatim>\<open>CONFIG_T\<close> that PowerLimiter.cpp reads.\<close>

record CONFIG_T =
  PowerLimiter_Enabled :: bool
  PowerLimiter_VerboseLogging :: bool
  PowerLimiter_SolarPassThroughEnabled :: bool
  PowerLimiter_SolarPassThroughLosses :: nat
  PowerLimiter_BatteryDrainStategy :: nat
  PowerLimiter_IsInverterBehindPowerMeter :: bool
  PowerLimiter_InverterId :: nat
  PowerLimiter_InverterChannelId :: nat
  PowerLimiter_TargetPowerConsumption :: int
  PowerLimiter_TargetPowerConsumptionHysteresis :: int
  PowerLimiter_LowerPowerLimit :: int
  PowerLimiter_UpperPowerLimit :: int
  PowerLimiter_BatterySocStartThreshold :: nat
  PowerLimiter_BatterySocStopThreshold :: nat
  PowerLimiter_VoltageStartThreshold :: real
  PowerLimiter_VoltageStopThreshold :: real
  PowerLimiter_VoltageLoadCorrectionFactor :: real
  PowerLimiter_RestartHour :: int
  PowerLimiter_FullSolarPassThroughSoc :: nat
  PowerLimiter_FullSolarPassThroughStartVoltage :: real
  PowerLimiter_FullSolarPassThroughStopVoltage :: real
  PowerMeter_Enabled :: bool
  Vedirect_Enabled :: bool
  Battery_Enabled :: bool

text \<open>
  What \<^verbatim>\<open>InverterAbstract\<close> reports: \<open>limitLastUpdateCommand\<close> is
  \<^verbatim>\<open>SystemConfigPara()->getLastUpdateCommand()\<close>, \<open>powerLastUpdateCommand\<close> is
  \<^verbatim>\<open>PowerCommand()->getLastUpdateCommand()\<close>, \<open>statsLastUpdate\<close> is
  \<^verbatim>\<open>Statistics()->getLastUpdate()\<close>, \<open>AC_EFF\<close> and \<open>AC_PAC\<close> are
  \<^verbatim>\<open>getChannelFieldValue(TYPE_AC, CH0, FLD_EFF)\<close> and \<^verbatim>\<open>(..., FLD_PAC)\<close>, \<open>DC_UDC c\<close> and
  \<open>DC_PDC c\<close> are \<^verbatim>\<open>getChannelFieldValue(TYPE_DC, c, FLD_UDC)\<close> and \<^verbatim>\<open>(..., FLD_PDC)\<close>,
  \<open>getChannelsByType_DC\<close> is \<^verbatim>\<open>getChannelsByType(TYPE_DC)\<close>.
\<close>

record InverterAbstract =
  isProducing :: bool
  isReachable :: bool
  getEnableCommands :: bool
  getLastLimitCommandSuccess :: LastCommandSuccess
  getLastPowerCommandSuccess :: LastCommandSuccess
  limitLastUpdateCommand :: uint32
  powerLastUpdateCommand :: uint32
  statsLastUpdate :: uint32
  getMaxPower :: nat
  AC_EFF :: real
  AC_PAC :: real
  DC_UDC :: "ChannelNum_t \<Rightarrow> real"
  DC_PDC :: "ChannelNum_t \<Rightarrow> real"
  getChannelsByType_DC :: "ChannelNum_t list"

record tm =
  tm_hour :: int
  tm_min :: int

text \<open>
  One snapshot of the collaborators. \<open>getLocalTime\<close> is \<open>None\<close> when
  \<^verbatim>\<open>getLocalTime(&timeinfo, 5)\<close> fails. \<open>getInverterByPos\<close> is
  \<^verbatim>\<open>Hoymiles.getInverterByPos\<close> (\<open>None\<close> for \<^verbatim>\<open>nullptr\<close>); \<open>inverters\<close> gives the
  readings of the inverter with a serial number.
\<close>

record env =
  config :: CONFIG_T
  millis :: uint32
  getLocalTime :: "tm option"
  getInverterByPos :: "nat \<Rightarrow> serial_t option"
  inverters :: "serial_t \<Rightarrow> InverterAbstract"
  PowerMeter_getPowerTotal :: real
  PowerMeter_getLastPowerMeterUpdate :: uint32
  VeDirectMppt_isDataValid :: bool
  veFrame_V :: real
  veFrame_I :: real
  veFrame_PPV :: int
  Battery_isValid :: bool
  Battery_getSoC :: nat
  Battery_getSoCAgeSeconds :: uint32
  HuaweiCan_getAutoPowerStatus :: bool

text \<open>
  The member variables of \<^verbatim>\<open>PowerLimiterClass\<close> (without the leading underscore), and
  the trace \<open>out\<close>.
\<close>

record dpl =
  lastRequestedPowerLimit :: int
  lastPowerLimitMillis :: uint32
  shutdownTimeout :: uint32
  lastStatus :: Status
  lastStatusPrinted :: uint32
  lastCalculation :: uint32
  calculationBackoffMs :: uint32
  mode :: Mode
  inverter :: "serial_t option"
  batteryDischargeEnabled :: bool
  nextInverterRestart :: uint32
  nextCalculateCheck :: uint32
  fullSolarPassThroughEnabled :: bool
  verboseLogging :: bool
  out :: "event list"

text \<open>
  PowerLimiter.h is not among the sources. The constants it declares are a parameter of
  the model: the default of the calculation backoff and the two battery drain strategies.
\<close>

record header =
  calculationBackoffMsDefault :: uint32
  EMPTY_WHEN_FULL :: nat
  EMPTY_AT_NIGHT :: nat

subsection \<open>Conversions from floating point to integers\<close>

definition c_round :: "real \<Rightarrow> int" where
  "c_round x = (if 0 \<le> x then \<lfloor>x + 1 / 2\<rfloor> else \<lceil>x - 1 / 2\<rceil>)"

definition c_trunc :: "real \<Rightarrow> int" where
  "c_trunc x = (if 0 \<le> x then \<lfloor>x\<rfloor> else \<lceil>x\<rceil>)"

subsection \<open>announceStatus, commitPowerLimit and shutdown\<close>

definition announceStatus :: "Status \<Rightarrow> env \<Rightarrow> dpl \<Rightarrow> dpl" where
  "announceStatus status e s =
     (if lastStatus s = status \<and> millis e < lastStatusPrinted s + 10 * 1000 then s
      else if status = DisabledByConfig \<and> lastStatus s = status then s
      else s\<lparr>out := out s @ [StatusPrinted status],
             lastStatus := status,
             lastStatusPrinted := millis e\<rparr>)"

definition commitPowerLimit :: "serial_t \<Rightarrow> int \<Rightarrow> bool \<Rightarrow> env \<Rightarrow> dpl \<Rightarrow> dpl" where
  "commitPowerLimit iv limit enablePowerProduction e s =
     (let s1 = (if \<not> enablePowerProduction \<and> isProducing (inverters e iv)
                then s\<lparr>out := out s @ [PowerControlRequest iv False]\<rparr> else s);
          s2 = s1\<lparr>out := out s1 @ [ActivePowerControlRequest iv limit AbsolutNonPersistent],
                  lastRequestedPowerLimit := limit,
                  lastPowerLimitMillis := millis e\<rparr>
      in if enablePowerProduction \<and> \<not> isProducing (inverters e iv)
         then s2\<lparr>out := out s2 @ [PowerControlRequest iv True]\<rparr> else s2)"

definition shutdown :: "Status \<Rightarrow> env \<Rightarrow> dpl \<Rightarrow> bool \<times> dpl" where
  "shutdown status e s0 =
     (let s = announceStatus status e s0 in
      case inverter s of
        None \<Rightarrow> (False, s\<lparr>inverter := None, shutdownTimeout := 0\<rparr>)
      | Some iv \<Rightarrow>
          if \<not> isProducing (inverters e iv)
             \<or> (shutdownTimeout s > 0 \<and> shutdownTimeout s < millis e)
          then (False, s\<lparr>inverter := None, shutdownTimeout := 0\<rparr>)
          else if \<not> isReachable (inverters e iv) then (True, s)
          else
            let s1 = (if shutdownTimeout s = 0
                      then s\<lparr>shutdownTimeout := millis e + 10 * 1000\<rparr> else s)
            in if getLastLimitCommandSuccess (inverters e iv) = CMD_PENDING then (True, s1)
               else if getLastPowerCommandSuccess (inverters e iv) = CMD_PENDING then (True, s1)
               else (True, commitPowerLimit iv (PowerLimiter_LowerPowerLimit (config e)) False e s1))"

text \<open>
  Modelled from the spec: the overload \<^verbatim>\<open>shutdown()\<close> without an argument is declared in
  PowerLimiter.h, which is not among the sources. The loop calls it to "drive shutdown()
  again" and the comments at both call sites say that the status that led to the shutdown
  is preserved, so it announces the last status again.
\<close>

definition shutdown_last :: "env \<Rightarrow> dpl \<Rightarrow> bool \<times> dpl" where
  "shutdown_last e s = shutdown (lastStatus s) e s"

subsection \<open>The threshold evaluator\<close>

text \<open>
  \<^verbatim>\<open>getLoadCorrectedVoltage\<close> returns the voltage and the line it prints when no inverter
  is bound.
\<close>

definition getLoadCorrectedVoltage :: "env \<Rightarrow> dpl \<Rightarrow> real \<times> string list" where
  "getLoadCorrectedVoltage e s =
     (case inverter s of
        None \<Rightarrow> (0, [''DPL getLoadCorrectedVoltage: no inverter (programmer error)''])
      | Some iv \<Rightarrow>
          let channel = PowerLimiter_InverterChannelId (config e);
              acPower = AC_PAC (inverters e iv);
              dcVoltage = DC_UDC (inverters e iv) channel
          in if dcVoltage \<le> 0 then (0, [])
             else (dcVoltage + (acPower * PowerLimiter_VoltageLoadCorrectionFactor (config e)), []))"

definition testThreshold ::
  "real \<Rightarrow> real \<Rightarrow> (real \<Rightarrow> real \<Rightarrow> bool) \<Rightarrow> env \<Rightarrow> dpl \<Rightarrow> bool" where
  "testThreshold socThreshold voltThreshold compare e s =
     (if Battery_Enabled (config e) \<and> socThreshold > 0
         \<and> Battery_isValid e
         \<and> Battery_getSoCAgeSeconds e < 60
      then compare (real (Battery_getSoC e)) socThreshold
      else if voltThreshold \<le> 0 then False
      else compare (fst (getLoadCorrectedVoltage e s)) voltThreshold)"

definition isStartThresholdReached :: "env \<Rightarrow> dpl \<Rightarrow> bool" where
  "isStartThresholdReached e s =
     testThreshold
       (real (PowerLimiter_BatterySocStartThreshold (config e)))
       (PowerLimiter_VoltageStartThreshold (config e))
       (\<lambda>a b. a \<ge> b) e s"

definition isStopThresholdReached :: "env \<Rightarrow> dpl \<Rightarrow> bool" where
  "isStopThresholdReached e s =
     testThreshold
       (real (PowerLimiter_BatterySocStopThreshold (config e)))
       (PowerLimiter_VoltageStopThreshold (config e))
       (\<lambda>a b. a \<le> b) e s"

definition isBelowStopThreshold :: "env \<Rightarrow> dpl \<Rightarrow> bool" where
  "isBelowStopThreshold e s =
     testThreshold
       (real (PowerLimiter_BatterySocStopThreshold (config e)))
       (PowerLimiter_VoltageStopThreshold (config e))
       (\<lambda>a b. a < b) e s"

subsection \<open>The solar availability oracle\<close>

definition canUseDirectSolarPower :: "env \<Rightarrow> dpl \<Rightarrow> bool" where
  "canUseDirectSolarPower e s =
     (if \<not> PowerLimiter_SolarPassThroughEnabled (config e)
         \<or> isBelowStopThreshold e s
         \<or> \<not> Vedirect_Enabled (config e)
         \<or> \<not> VeDirectMppt_isDataValid e
      then False
      else veFrame_PPV e \<ge> 20)"

definition getSolarChargePower :: "env \<Rightarrow> dpl \<Rightarrow> int" where
  "getSolarChargePower e s =
     (if \<not> canUseDirectSolarPower e s then 0
      else c_trunc (veFrame_V e * veFrame_I e))"

definition useFullSolarPassthrough :: "env \<Rightarrow> dpl \<Rightarrow> bool \<times> dpl" where
  "useFullSolarPassthrough e s =
     (if \<not> PowerLimiter_SolarPassThroughEnabled (config e) then (False, s)
      else
        let s1 = (if testThreshold (real (PowerLimiter_FullSolarPassThroughSoc (config e)))
                       (PowerLimiter_FullSolarPassThroughStartVoltage (config e))
                       (\<lambda>a b. a \<ge> b) e s
                  then s\<lparr>fullSolarPassThroughEnabled := True\<rparr> else s);
            s2 = (if testThreshold (real (PowerLimiter_FullSolarPassThroughSoc (config e)))
                       (PowerLimiter_FullSolarPassThroughStopVoltage (config e))
                       (\<lambda>a b. a < b) e s1
                  then s1\<lparr>fullSolarPassThroughEnabled := False\<rparr> else s1)
        in (fullSolarPassThroughEnabled s2, s2))"

subsection \<open>The power limit calculator\<close>

definition inverterPowerDcToAc :: "serial_t \<Rightarrow> int \<Rightarrow> env \<Rightarrow> int" where
  "inverterPowerDcToAc iv dcPower e =
     (let inverterEfficiencyPercent = AC_EFF (inverters e iv);
          inverterEfficiencyFactor =
            (if inverterEfficiencyPercent > 0 then inverterEfficiencyPercent / 100 else 0.967);
          lossesFactor = 1.00 - real (PowerLimiter_SolarPassThroughLosses (config e)) / 100
      in c_trunc (real_of_int dcPower * inverterEfficiencyFactor * lossesFactor))"

text \<open>
  \<^verbatim>\<open>calcPowerLimit\<close> returns the limit and the state: \<^verbatim>\<open>useFullSolarPassthrough()\<close>
  updates the latch, and C++ evaluates it only when \<^verbatim>\<open>batteryDischargeEnabled\<close> is true.
\<close>

definition calcPowerLimit :: "serial_t \<Rightarrow> bool \<Rightarrow> bool \<Rightarrow> env \<Rightarrow> dpl \<Rightarrow> int \<times> dpl" where
  "calcPowerLimit iv solarPowerEnabled dischargeEnabled e s =
     (let newPowerLimit = c_round (PowerMeter_getPowerTotal e) in
      if \<not> solarPowerEnabled \<and> \<not> dischargeEnabled then (0, s)
      else
        let newPowerLimit1 =
              (if PowerLimiter_IsInverterBehindPowerMeter (config e)
               then newPowerLimit + c_trunc (AC_PAC (inverters e iv)) else newPowerLimit);
            newPowerLimit2 = newPowerLimit1 - PowerLimiter_TargetPowerConsumption (config e);
            adjustedVictronChargePower = inverterPowerDcToAc iv (getSolarChargePower e s) e;
            fs = (if dischargeEnabled then useFullSolarPassthrough e s else (False, s))
        in if dischargeEnabled \<and> fst fs
           then
             let newPowerLimit3 =
                   (if newPowerLimit2 > adjustedVictronChargePower
                    then newPowerLimit2 else adjustedVictronChargePower)
             in (if solarPowerEnabled \<and> \<not> dischargeEnabled
                 then min newPowerLimit3 adjustedVictronChargePower else newPowerLimit3, snd fs)
           else if HuaweiCan_getAutoPowerStatus e then (0, snd fs)
           else (if solarPowerEnabled \<and> \<not> dischargeEnabled
                 then min newPowerLimit2 adjustedVictronChargePower else newPowerLimit2, snd fs))"

subsection \<open>The limit committer\<close>

text \<open>The loop over the DC channels that counts the producing ones.\<close>

primrec dcProdChnls :: "InverterAbstract \<Rightarrow> ChannelNum_t list \<Rightarrow> int" where
  "dcProdChnls i [] = 0"
| "dcProdChnls i (c # cs) = (if DC_PDC i c > 2.0 then 1 else 0) + dcProdChnls i cs"

text \<open>Lines 526 to 546 of \<^verbatim>\<open>setNewPowerLimit\<close>: the effective limit.\<close>

definition effPowerLimit :: "serial_t \<Rightarrow> int \<Rightarrow> env \<Rightarrow> int" where
  "effPowerLimit iv newPowerLimit e =
     (let eff1 = min newPowerLimit (PowerLimiter_UpperPowerLimit (config e));
          dcChnls = getChannelsByType_DC (inverters e iv);
          dcTotalChnls = int (length dcChnls);
          prod = dcProdChnls (inverters e iv) dcChnls;
          eff2 = (if prod > 0 \<and> prod \<noteq> dcTotalChnls
                  then c_round (real_of_int eff1 * real_of_int dcTotalChnls / real_of_int prod)
                  else eff1)
      in min eff2 (int (getMaxPower (inverters e iv))))"

definition setNewPowerLimit :: "serial_t \<Rightarrow> int \<Rightarrow> env \<Rightarrow> dpl \<Rightarrow> bool \<times> dpl" where
  "setNewPowerLimit iv newPowerLimit e s =
     (if newPowerLimit < PowerLimiter_LowerPowerLimit (config e) then shutdown_last e s
      else
        let eff = effPowerLimit iv newPowerLimit e;
            diff = \<bar>eff - lastRequestedPowerLimit s\<bar>;
            hysteresis = PowerLimiter_TargetPowerConsumptionHysteresis (config e);
            ageMillis = millis e - lastPowerLimitMillis s
        in if diff < hysteresis \<and> ageMillis < 60 * 1000 then (False, s)
           else (True, commitPowerLimit iv eff True e s))"

subsection \<open>The restart scheduler\<close>

text \<open>
  \<^verbatim>\<open>dayMinutes\<close> and \<^verbatim>\<open>targetMinutes\<close> are \<^verbatim>\<open>uint16_t\<close>; their difference is computed
  in \<^verbatim>\<open>int\<close> and stored in the unsigned \<^verbatim>\<open>_nextInverterRestart\<close>.
\<close>

definition calcNextInverterRestart :: "env \<Rightarrow> dpl \<Rightarrow> dpl" where
  "calcNextInverterRestart e s =
     (if PowerLimiter_RestartHour (config e) < 0 then s\<lparr>nextInverterRestart := 1\<rparr>
      else
        case getLocalTime e of
          Some timeinfo \<Rightarrow>
            let dayMinutes = (tm_hour timeinfo * 60 + tm_min timeinfo) mod 65536;
                targetMinutes = (PowerLimiter_RestartHour (config e) * 60) mod 65536;
                minutes = (if PowerLimiter_RestartHour (config e) > tm_hour timeinfo
                           then targetMinutes - dayMinutes
                           else 1440 - dayMinutes + targetMinutes)
            in s\<lparr>nextInverterRestart := word_of_int minutes * 60000 + millis e\<rparr>
        | None \<Rightarrow> s\<lparr>nextInverterRestart := 0\<rparr>)"

subsection \<open>The control loop\<close>

definition unconditionalSolarPassthrough :: "serial_t \<Rightarrow> env \<Rightarrow> dpl \<Rightarrow> dpl" where
  "unconditionalSolarPassthrough iv e s =
     (if \<not> Vedirect_Enabled (config e) \<or> \<not> VeDirectMppt_isDataValid e
      then snd (shutdown NoVeDirect e s)
      else
        let solarPower = c_trunc (veFrame_V e * veFrame_I e);
            s1 = snd (setNewPowerLimit iv (inverterPowerDcToAc iv solarPower e) e s)
        in announceStatus UnconditionalSolarPassthrough e s1)"

text \<open>
  \<^verbatim>\<open>loop()\<close> is one chain of early returns. It is split into stages:
  \<open>loop_inverter\<close> is lines 110 to 186 (time, shutdown in progress, configuration, binding
  and state of the inverter), \<open>loop_meter\<close> is lines 193 to 228 (power meter, settling,
  backoff), \<open>loop_calculate\<close> is lines 230 to 334. A stage returns \<open>Inl\<close> of the final state
  when the loop returns there, and \<open>Inr\<close> when the loop goes on.
\<close>

definition loop_inverter :: "env \<Rightarrow> dpl \<Rightarrow> dpl + serial_t \<times> dpl" where
  "loop_inverter e s00 =
     (let s0 = s00\<lparr>verboseLogging := PowerLimiter_VerboseLogging (config e)\<rparr> in
      if getLocalTime e = None then Inl (announceStatus WaitingForValidTimestamp e s0)
      else if shutdownTimeout s0 > 0 then Inl (snd (shutdown_last e s0))
      else if \<not> PowerLimiter_Enabled (config e) then Inl (snd (shutdown DisabledByConfig e s0))
      else if mode s0 = Disabled then Inl (snd (shutdown DisabledByMqtt e s0))
      else
        case getInverterByPos e (PowerLimiter_InverterId (config e)) of
          None \<Rightarrow> Inl (snd (shutdown InverterInvalid e s0))
        | Some currentInverter \<Rightarrow>
            if (case inverter s0 of None \<Rightarrow> False | Some bound \<Rightarrow> bound \<noteq> currentInverter)
            then Inl (snd (shutdown InverterChanged e s0))
            else
              let s1 = s0\<lparr>inverter := Some currentInverter\<rparr>;
                  i = inverters e currentInverter
              in if \<not> isReachable i then Inl (announceStatus InverterOffline e s1)
                 else if \<not> getEnableCommands i
                 then Inl (announceStatus InverterCommandsDisabled e s1)
                 else if getLastLimitCommandSuccess i = CMD_PENDING
                 then Inl (announceStatus InverterLimitPending e s1)
                 else if getLastPowerCommandSuccess i = CMD_PENDING
                 then Inl (announceStatus InverterPowerCmdPending e s1)
                 else if int (getMaxPower i) \<le> 0
                 then Inl (announceStatus InverterDevInfoPending e s1)
                 else Inr (currentInverter, s1))"

definition loop_meter :: "serial_t \<Rightarrow> env \<Rightarrow> dpl \<Rightarrow> dpl + dpl" where
  "loop_meter iv e s =
     (if \<not> PowerMeter_Enabled (config e) then Inl (snd (shutdown PowerMeterDisabled e s))
      else if millis e - PowerMeter_getLastPowerMeterUpdate e > 30 * 1000
      then Inl (snd (shutdown PowerMeterTimeout e s))
      else
        let lastUpdateCmd = max (limitLastUpdateCommand (inverters e iv))
                                (powerLastUpdateCommand (inverters e iv));
            settlingEnd = lastUpdateCmd + 3 * 1000
        in if millis e < settlingEnd then Inl (announceStatus Settling e s)
           else if statsLastUpdate (inverters e iv) \<le> settlingEnd
           then Inl (announceStatus InverterStatsPending e s)
           else if PowerMeter_getLastPowerMeterUpdate e \<le> settlingEnd
           then Inl (announceStatus PowerMeterPending e s)
           else if millis e < lastCalculation s + calculationBackoffMs s
           then Inl (announceStatus Stable e s)
           else Inr s)"

text \<open>Lines 234 to 253: the restart check.\<close>

definition loop_restart :: "serial_t \<Rightarrow> env \<Rightarrow> dpl \<Rightarrow> dpl" where
  "loop_restart iv e s =
     (let s1 = (if nextInverterRestart s > 1 \<and> nextInverterRestart s \<le> millis e
                then calcNextInverterRestart e (s\<lparr>out := out s @ [RestartControlRequest iv]\<rparr>)
                else s)
      in if PowerLimiter_RestartHour (config e) \<ge> 0 \<and> nextInverterRestart s1 = 0
         then (if nextCalculateCheck s1 < millis e
               then (if getLocalTime e \<noteq> None then calcNextInverterRestart e s1
                     else s1\<lparr>nextCalculateCheck := nextCalculateCheck s1 + 5000\<rparr>)
               else s1)
         else s1)"

text \<open>Lines 255 to 284: the battery charging cycle conditions.\<close>

definition loop_discharge :: "header \<Rightarrow> env \<Rightarrow> dpl \<Rightarrow> dpl" where
  "loop_discharge h e s =
     (if isStopThresholdReached e s then s\<lparr>batteryDischargeEnabled := False\<rparr>
      else
        let s1 = (if \<not> PowerLimiter_SolarPassThroughEnabled (config e)
                     \<and> isStartThresholdReached e s
                  then s\<lparr>batteryDischargeEnabled := True\<rparr> else s);
            s2 = (if PowerLimiter_SolarPassThroughEnabled (config e)
                     \<and> PowerLimiter_BatteryDrainStategy (config e) = EMPTY_AT_NIGHT h
                  then (if isStartThresholdReached e s1
                        then s1\<lparr>batteryDischargeEnabled := True\<rparr>
                        else s1\<lparr>batteryDischargeEnabled := \<not> canUseDirectSolarPower e s1\<rparr>)
                  else s1)
        in if PowerLimiter_SolarPassThroughEnabled (config e)
              \<and> isStartThresholdReached e s2
              \<and> PowerLimiter_BatteryDrainStategy (config e) = EMPTY_WHEN_FULL h
           then s2\<lparr>batteryDischargeEnabled := True\<rparr> else s2)"

definition loop_calculate :: "header \<Rightarrow> serial_t \<Rightarrow> env \<Rightarrow> dpl \<Rightarrow> dpl" where
  "loop_calculate h iv e s =
     (let s1 = loop_discharge h e (loop_restart iv e s);
          calc = calcPowerLimit iv (canUseDirectSolarPower e s1) (batteryDischargeEnabled s1) e s1;
          newPowerLimit = fst calc;
          upd = setNewPowerLimit iv newPowerLimit e (snd calc);
          limitUpdated = fst upd;
          s2 = (snd upd)\<lparr>lastCalculation := millis e\<rparr>
      in if \<not> limitUpdated
         then announceStatus Stable e
                (s2\<lparr>calculationBackoffMs := min 1024 (calculationBackoffMs s2 * 2)\<rparr>)
         else s2\<lparr>calculationBackoffMs := calculationBackoffMsDefault h\<rparr>)"

definition loop :: "header \<Rightarrow> env \<Rightarrow> dpl \<Rightarrow> dpl" where
  "loop h e s =
     (case loop_inverter e s of
        Inl s' \<Rightarrow> s'
      | Inr (iv, s1) \<Rightarrow>
          if mode s1 = UnconditionalFullSolarPassthrough
          then unconditionalSolarPassthrough iv e s1
          else
            (case loop_meter iv e s1 of
               Inl s' \<Rightarrow> s'
             | Inr s2 \<Rightarrow> loop_calculate h iv e s2))"

subsection \<open>Definitions that follow the words of the specification\<close>

text \<open>
  \<^verbatim>\<open>canUseDirectSolarPower()\<close> in the words of the specification: false when the battery
  is below or at the stop threshold, which is \<^verbatim>\<open>isStopThresholdReached()\<close>.
\<close>

definition canUseDirectSolarPower_spec :: "env \<Rightarrow> dpl \<Rightarrow> bool" where
  "canUseDirectSolarPower_spec e s =
     (if \<not> PowerLimiter_SolarPassThroughEnabled (config e)
         \<or> isStopThresholdReached e s
         \<or> \<not> Vedirect_Enabled (config e)
         \<or> \<not> VeDirectMppt_isDataValid e
      then False
      else veFrame_PPV e \<ge> 20)"

text \<open>
  The start and the stop condition of the full solar passthrough: the two tests of
  \<^verbatim>\<open>useFullSolarPassthrough()\<close>.
\<close>

definition fullPassthroughStart :: "env \<Rightarrow> dpl \<Rightarrow> bool" where
  "fullPassthroughStart e s =
     testThreshold (real (PowerLimiter_FullSolarPassThroughSoc (config e)))
       (PowerLimiter_FullSolarPassThroughStartVoltage (config e)) (\<lambda>a b. a \<ge> b) e s"

definition fullPassthroughStop :: "env \<Rightarrow> dpl \<Rightarrow> bool" where
  "fullPassthroughStop e s =
     testThreshold (real (PowerLimiter_FullSolarPassThroughSoc (config e)))
       (PowerLimiter_FullSolarPassThroughStopVoltage (config e)) (\<lambda>a b. a < b) e s"

text \<open>
  The latch in the words of the specification (\<open>latch_spec\<close>: a start sets it, a stop
  clears it, otherwise it keeps its value), and the latch with the order of the code
  (\<open>latch_step\<close>: the stop test comes last and wins), folded over a sequence.
\<close>

definition latch_spec :: "bool \<Rightarrow> bool \<Rightarrow> bool \<Rightarrow> bool" where
  "latch_spec start stop previous = (if start then True else if stop then False else previous)"

definition latch_step :: "bool \<Rightarrow> bool \<Rightarrow> bool \<Rightarrow> bool" where
  "latch_step start stop previous = (if stop then False else if start then True else previous)"

primrec latch_run :: "bool \<Rightarrow> (bool \<times> bool) list \<Rightarrow> bool" where
  "latch_run l [] = l"
| "latch_run l (x # xs) = latch_run (latch_step (fst x) (snd x) l) xs"

primrec useFullSolarPassthrough_run :: "env list \<Rightarrow> dpl \<Rightarrow> dpl" where
  "useFullSolarPassthrough_run [] s = s"
| "useFullSolarPassthrough_run (e # es) s =
     useFullSolarPassthrough_run es (snd (useFullSolarPassthrough e s))"

text \<open>
  The decision table of the specification: \<open>raw\<close> rounds the sum of the meter reading and,
  behind the meter, the AC power of the inverter; the auto-power source matters in cases 3
  and 4 only.
\<close>

definition rawPowerLimit_spec :: "serial_t \<Rightarrow> env \<Rightarrow> int" where
  "rawPowerLimit_spec iv e =
     c_round (PowerMeter_getPowerTotal e
              + (if PowerLimiter_IsInverterBehindPowerMeter (config e)
                 then AC_PAC (inverters e iv) else 0))
     - PowerLimiter_TargetPowerConsumption (config e)"

definition calcPowerLimit_spec :: "serial_t \<Rightarrow> bool \<Rightarrow> bool \<Rightarrow> env \<Rightarrow> dpl \<Rightarrow> int" where
  "calcPowerLimit_spec iv S D e s =
     (let raw = rawPowerLimit_spec iv e;
          solarAC = inverterPowerDcToAc iv (getSolarChargePower e s) e;
          F = fst (useFullSolarPassthrough e s)
      in if \<not> S \<and> \<not> D then 0
         else if S \<and> \<not> D then min raw solarAC
         else if F then max raw solarAC
         else if HuaweiCan_getAutoPowerStatus e then 0
         else raw)"

text \<open>
  The value of \<^verbatim>\<open>newPowerLimit\<close> in the code after line 450: the meter reading is rounded
  alone and the AC power of the inverter is cut to an integer before it is added.
\<close>

definition rawPowerLimit :: "serial_t \<Rightarrow> env \<Rightarrow> int" where
  "rawPowerLimit iv e =
     c_round (PowerMeter_getPowerTotal e)
     + (if PowerLimiter_IsInverterBehindPowerMeter (config e)
        then c_trunc (AC_PAC (inverters e iv)) else 0)
     - PowerLimiter_TargetPowerConsumption (config e)"

text \<open>
  The effective limit in the words of the specification: clamp to the upper limit, scale
  by total over producing DC channels when the producing ones are more than none and
  fewer than all, clamp to the maximum power of the inverter.
\<close>

definition effPowerLimit_spec :: "serial_t \<Rightarrow> int \<Rightarrow> env \<Rightarrow> int" where
  "effPowerLimit_spec iv requested e =
     (let clamped = min requested (PowerLimiter_UpperPowerLimit (config e));
          total = length (getChannelsByType_DC (inverters e iv));
          producing = length (filter (\<lambda>c. DC_PDC (inverters e iv) c > 2)
                                     (getChannelsByType_DC (inverters e iv)));
          scaled = (if 0 < producing \<and> producing < total
                    then c_round (real_of_int clamped * (real total / real producing))
                    else clamped)
      in min scaled (int (getMaxPower (inverters e iv))))"

text \<open>
  The minutes from \<open>hour:minute\<close> until the restart hour, of today when it is later than
  the current hour and of the next day otherwise.
\<close>

definition minutesUntilRestart :: "int \<Rightarrow> int \<Rightarrow> int \<Rightarrow> int" where
  "minutesUntilRestart restartHour hour minute =
     (if hour < restartHour then (restartHour - hour) * 60 - minute
      else (24 - hour + restartHour) * 60 - minute)"

text \<open>Repeated calls of \<^verbatim>\<open>shutdown\<close>, each with its status and its snapshot.\<close>

primrec shutdown_run :: "(Status \<times> env) list \<Rightarrow> dpl \<Rightarrow> bool list \<times> dpl" where
  "shutdown_run [] s = ([], s)"
| "shutdown_run (c # cs) s =
     (let r = shutdown (fst c) (snd c) s; rs = shutdown_run cs (snd r)
      in (fst r # fst rs, snd rs))"

subsection \<open>Ticks of the loop\<close>

text \<open>
  \<open>loop_calculates\<close>: the tick passes every early return and reaches the calculation of a
  new limit (line 230). \<open>limit_sent\<close>: a power limit command was emitted between two
  states. \<open>loop_run\<close>: one tick after the other, each with its snapshot.
\<close>

definition loop_calculates :: "env \<Rightarrow> dpl \<Rightarrow> bool" where
  "loop_calculates e s =
     (case loop_inverter e s of
        Inl s' \<Rightarrow> False
      | Inr (iv, sb) \<Rightarrow>
          mode sb \<noteq> UnconditionalFullSolarPassthrough
          \<and> (case loop_meter iv e sb of Inl s' \<Rightarrow> False | Inr sc \<Rightarrow> True))"

definition limit_sent :: "dpl \<Rightarrow> dpl \<Rightarrow> bool" where
  "limit_sent s s' = list_ex is_limit_command (drop (length (out s)) (out s'))"

primrec loop_run :: "header \<Rightarrow> env list \<Rightarrow> dpl \<Rightarrow> dpl" where
  "loop_run h [] s = s"
| "loop_run h (e # es) s = loop_run h es (loop h e s)"

subsection \<open>Sample configuration, readings and state\<close>

definition cfg0 :: CONFIG_T where
  "cfg0 = \<lparr>PowerLimiter_Enabled = True,
      PowerLimiter_VerboseLogging = False,
      PowerLimiter_SolarPassThroughEnabled = True,
      PowerLimiter_SolarPassThroughLosses = 3,
      PowerLimiter_BatteryDrainStategy = 0,
      PowerLimiter_IsInverterBehindPowerMeter = False,
      PowerLimiter_InverterId = 0,
      PowerLimiter_InverterChannelId = 0,
      PowerLimiter_TargetPowerConsumption = 0,
      PowerLimiter_TargetPowerConsumptionHysteresis = 10,
      PowerLimiter_LowerPowerLimit = 10,
      PowerLimiter_UpperPowerLimit = 800,
      PowerLimiter_BatterySocStartThreshold = 80,
      PowerLimiter_BatterySocStopThreshold = 20,
      PowerLimiter_VoltageStartThreshold = 50,
      PowerLimiter_VoltageStopThreshold = 49,
      PowerLimiter_VoltageLoadCorrectionFactor = 1 / 1000,
      PowerLimiter_RestartHour = -1,
      PowerLimiter_FullSolarPassThroughSoc = 100,
      PowerLimiter_FullSolarPassThroughStartVoltage = 57,
      PowerLimiter_FullSolarPassThroughStopVoltage = 55,
      PowerMeter_Enabled = True,
      Vedirect_Enabled = True,
      Battery_Enabled = True\<rparr>"

definition inv0 :: InverterAbstract where
  "inv0 = \<lparr>isProducing = True,
      isReachable = True,
      getEnableCommands = True,
      getLastLimitCommandSuccess = CMD_OK,
      getLastPowerCommandSuccess = CMD_OK,
      limitLastUpdateCommand = 1000,
      powerLastUpdateCommand = 2000,
      statsLastUpdate = 9000,
      getMaxPower = 600,
      AC_EFF = 100,
      AC_PAC = 200,
      DC_UDC = (\<lambda>c. 52),
      DC_PDC = (\<lambda>c. if c = 0 then 100 else 0),
      getChannelsByType_DC = [0, 1]\<rparr>"

definition env0 :: env where
  "env0 = \<lparr>config = cfg0,
      millis = 10000,
      getLocalTime = Some \<lparr>tm_hour = 10, tm_min = 30\<rparr>,
      getInverterByPos = (\<lambda>p. if p = 0 then Some 1 else None),
      inverters = (\<lambda>sn. inv0),
      PowerMeter_getPowerTotal = 500,
      PowerMeter_getLastPowerMeterUpdate = 9500,
      VeDirectMppt_isDataValid = True,
      veFrame_V = 30,
      veFrame_I = 10,
      veFrame_PPV = 300,
      Battery_isValid = True,
      Battery_getSoC = 50,
      Battery_getSoCAgeSeconds = 1,
      HuaweiCan_getAutoPowerStatus = False\<rparr>"

definition dpl0 :: dpl where
  "dpl0 = \<lparr>lastRequestedPowerLimit = 0,
      lastPowerLimitMillis = 0,
      shutdownTimeout = 0,
      lastStatus = Initializing,
      lastStatusPrinted = 0,
      lastCalculation = 0,
      calculationBackoffMs = 128,
      mode = Normal,
      inverter = None,
      batteryDischargeEnabled = False,
      nextInverterRestart = 0,
      nextCalculateCheck = 5000,
      fullSolarPassThroughEnabled = False,
      verboseLogging = True,
      out = []\<rparr>"

definition hdr0 :: header where
  "hdr0 = \<lparr>calculationBackoffMsDefault = 128, EMPTY_WHEN_FULL = 0, EMPTY_AT_NIGHT = 1\<rparr>"

text \<open>A bound inverter, and readings without a usable state of charge: the voltage decides.\<close>

definition dpl1 :: dpl where
  "dpl1 = dpl0\<lparr>inverter := Some 1\<rparr>"

definition env_volt :: "real \<Rightarrow> env" where
  "env_volt v = env0\<lparr>Battery_isValid := False,
                    inverters := (\<lambda>sn. inv0\<lparr>DC_UDC := (\<lambda>c. v), AC_PAC := 0\<rparr>)\<rparr>"

text \<open>Four DC channels of which three produce; a limit of 600 W sent at 9000 ms.\<close>

definition env_three_of_four :: env where
  "env_three_of_four =
     env0\<lparr>inverters := (\<lambda>sn. inv0\<lparr>getChannelsByType_DC := [0, 1, 2, 3],
                                   DC_PDC := (\<lambda>c. if c < 3 then 50 else 0)\<rparr>)\<rparr>"

definition dpl_sent :: dpl where
  "dpl_sent = dpl1\<lparr>lastRequestedPowerLimit := 600, lastPowerLimitMillis := 9000,
                   out := []\<rparr>"

text \<open>A configured restart hour; the local time of \<open>env0\<close> is 10:30.\<close>

definition env_restart :: "int \<Rightarrow> env" where
  "env_restart hour = env0\<lparr>config := cfg0\<lparr>PowerLimiter_RestartHour := hour\<rparr>\<rparr>"

text \<open>
  A shutdown whose deadline is 20000 ms, and an inverter that produces but cannot be
  reached, seen at a given time.
\<close>

definition dpl_stopping :: dpl where
  "dpl_stopping = dpl1\<lparr>shutdownTimeout := 20000, lastStatus := PowerMeterTimeout,
                       lastStatusPrinted := 10000\<rparr>"

definition env_unreachable :: "uint32 \<Rightarrow> env" where
  "env_unreachable t = env0\<lparr>millis := t, inverters := (\<lambda>sn. inv0\<lparr>isReachable := False\<rparr>)\<rparr>"

text \<open>
  The limiter switched to the unconditional full solar passthrough, with the calculation
  backoff at its cap; and a configuration without the solar charger.
\<close>

definition dpl_unconditional :: dpl where
  "dpl_unconditional =
     dpl0\<lparr>mode := UnconditionalFullSolarPassthrough, calculationBackoffMs := 1024\<rparr>"

definition env_no_vedirect :: env where
  "env_no_vedirect = env0\<lparr>config := cfg0\<lparr>Vedirect_Enabled := False\<rparr>\<rparr>"

text \<open>The state after a first tick with \<open>env0\<close> that sent a limit of 582 W.\<close>

definition dpl_settled :: dpl where
  "dpl_settled =
     dpl0\<lparr>lastRequestedPowerLimit := 582, lastPowerLimitMillis := 10000,
          lastCalculation := 10000, inverter := Some 1, verboseLogging := False,
          out := [ActivePowerControlRequest 1 582 AbsolutNonPersistent]\<rparr>"

lemma testThreshold_inverter_only:
  "inverter s = inverter s' \<Longrightarrow>
     testThreshold socT voltT cmp e s = testThreshold socT voltT cmp e s'"
  by (simp add: testThreshold_def getLoadCorrectedVoltage_def)

lemma useFullSolarPassthrough_eq:
  "useFullSolarPassthrough e s =
     (if PowerLimiter_SolarPassThroughEnabled (config e)
      then (latch_step (fullPassthroughStart e s) (fullPassthroughStop e s)
              (fullSolarPassThroughEnabled s),
            s\<lparr>fullSolarPassThroughEnabled :=
                latch_step (fullPassthroughStart e s) (fullPassthroughStop e s)
                  (fullSolarPassThroughEnabled s)\<rparr>)
      else (False, s))"
proof -
  have stop: "testThreshold c v f e (s\<lparr>fullSolarPassThroughEnabled := True\<rparr>)
      = testThreshold c v f e s" for c v f
    by (rule testThreshold_inverter_only) simp
  show ?thesis
    by (simp add: useFullSolarPassthrough_def Let_def stop latch_step_def
        fullPassthroughStart_def fullPassthroughStop_def)
qed

lemma useFullSolarPassthrough_inverter [simp]:
  "inverter (snd (useFullSolarPassthrough e s)) = inverter s"
  by (simp add: useFullSolarPassthrough_eq)

lemma fullPassthrough_conditions_inverter_only:
  "inverter s = inverter s' \<Longrightarrow> fullPassthroughStart e s = fullPassthroughStart e s'"
  "inverter s = inverter s' \<Longrightarrow> fullPassthroughStop e s = fullPassthroughStop e s'"
  by (simp_all add: fullPassthroughStart_def fullPassthroughStop_def
      testThreshold_inverter_only [of s s'])

lemma useFullSolarPassthrough_run_latch:
  "\<forall>e \<in> set es. PowerLimiter_SolarPassThroughEnabled (config e) \<Longrightarrow>
   fullSolarPassThroughEnabled (useFullSolarPassthrough_run es s)
     = latch_run (fullSolarPassThroughEnabled s)
         (map (\<lambda>e. (fullPassthroughStart e s, fullPassthroughStop e s)) es)"
proof (induction es arbitrary: s)
  case Nil
  then show ?case by simp
next
  case (Cons e es)
  let ?s' = "snd (useFullSolarPassthrough e s)"
  have inv: "inverter ?s' = inverter s" by simp
  have conds: "(\<lambda>x. (fullPassthroughStart x ?s', fullPassthroughStop x ?s'))
      = (\<lambda>x. (fullPassthroughStart x s, fullPassthroughStop x s))"
    using fullPassthrough_conditions_inverter_only [OF inv] by auto
  from Cons.prems have en: "PowerLimiter_SolarPassThroughEnabled (config e)"
    and rest: "\<forall>x \<in> set es. PowerLimiter_SolarPassThroughEnabled (config x)" by simp_all
  have "fullSolarPassThroughEnabled ?s'
      = latch_step (fullPassthroughStart e s) (fullPassthroughStop e s)
          (fullSolarPassThroughEnabled s)"
    using en by (simp add: useFullSolarPassthrough_eq)
  with Cons.IH [OF rest, of ?s'] conds show ?case by simp
qed

lemma start_stop_exclusive:
  assumes "PowerLimiter_FullSolarPassThroughStopVoltage (config e)
             \<le> PowerLimiter_FullSolarPassThroughStartVoltage (config e)"
  shows "\<not> (fullPassthroughStart e s \<and> fullPassthroughStop e s)"
  using assms by (auto simp add: fullPassthroughStart_def fullPassthroughStop_def testThreshold_def)

lemma dcProdChnls_filter:
  "dcProdChnls i cs = int (length (filter (\<lambda>c. DC_PDC i c > 2) cs))"
  by (induction cs) simp_all

lemma strictly_between_counts:
  "p \<le> n \<Longrightarrow> (0 < int p \<and> int p \<noteq> int n) = (0 < p \<and> p < n)"
  by arith

lemma effPowerLimit_refines: "effPowerLimit iv n e = effPowerLimit_spec iv n e"
  by (simp add: effPowerLimit_def effPowerLimit_spec_def dcProdChnls_filter Let_def
      strictly_between_counts [OF length_filter_le] del: of_nat_eq_iff of_nat_0_less_iff)

lemma commitPowerLimit_enable:
  "commitPowerLimit iv limit True e s =
     s\<lparr>out := out s @ ActivePowerControlRequest iv limit AbsolutNonPersistent
              # (if isProducing (inverters e iv) then [] else [PowerControlRequest iv True]),
       lastRequestedPowerLimit := limit,
       lastPowerLimitMillis := millis e\<rparr>"
  by (simp add: commitPowerLimit_def Let_def)

lemma uint16_small: "0 \<le> (x::int) \<Longrightarrow> x < 65536 \<Longrightarrow> x mod 65536 = x"
  by simp

lemma calcNextInverterRestart_minutes:
  assumes R: "0 \<le> PowerLimiter_RestartHour (config e)" "PowerLimiter_RestartHour (config e) \<le> 127"
    and t: "getLocalTime e = Some t"
    and h: "0 \<le> tm_hour t" "tm_hour t \<le> 23" and m: "0 \<le> tm_min t" "tm_min t \<le> 59"
  shows "nextInverterRestart (calcNextInverterRestart e s)
     = word_of_int (minutesUntilRestart (PowerLimiter_RestartHour (config e)) (tm_hour t) (tm_min t))
         * 60000 + millis e"
proof -
  have d: "(tm_hour t * 60 + tm_min t) mod 65536 = tm_hour t * 60 + tm_min t"
    using h m by (intro uint16_small) auto
  have g: "(PowerLimiter_RestartHour (config e) * 60) mod 65536
      = PowerLimiter_RestartHour (config e) * 60"
    using R by (intro uint16_small) auto
  have "(if tm_hour t < PowerLimiter_RestartHour (config e)
         then PowerLimiter_RestartHour (config e) * 60 - (tm_hour t * 60 + tm_min t)
         else 1440 - (tm_hour t * 60 + tm_min t) + PowerLimiter_RestartHour (config e) * 60)
      = minutesUntilRestart (PowerLimiter_RestartHour (config e)) (tm_hour t) (tm_min t)"
    by (simp add: minutesUntilRestart_def algebra_simps)
  then show ?thesis
    using R t by (simp add: calcNextInverterRestart_def Let_def d g)
qed

lemma minutesUntilRestart_bounds:
  assumes "0 \<le> R" "R \<le> 127" "0 \<le> h" "h \<le> 23" "0 \<le> m" "m \<le> 59"
  shows "0 < minutesUntilRestart R h m" "minutesUntilRestart R h m \<le> 7620"
  using assms by (auto simp add: minutesUntilRestart_def)

lemma uint_restart_no_wrap:
  assumes "0 \<le> k" "k * 60000 + uint (w :: 32 word) < 2 ^ 32"
  shows "uint (word_of_int k * 60000 + w :: 32 word) = k * 60000 + uint w"
proof -
  have "uint (word_of_int k * 60000 + w :: 32 word) = (k * 60000 + uint w) mod 2 ^ 32"
    by (simp add: uint_word_ariths uint_word_of_int mod_simps)
  also have "\<dots> = k * 60000 + uint w"
    using assms by (intro mod_pos_pos_trivial) auto
  finally show ?thesis .
qed

lemma announceStatus_keeps [simp]:
  "inverter (announceStatus st e s) = inverter s"
  "shutdownTimeout (announceStatus st e s) = shutdownTimeout s"
  "calculationBackoffMs (announceStatus st e s) = calculationBackoffMs s"
  "mode (announceStatus st e s) = mode s"
  "lastRequestedPowerLimit (announceStatus st e s) = lastRequestedPowerLimit s"
  "lastPowerLimitMillis (announceStatus st e s) = lastPowerLimitMillis s"
  by (simp_all add: announceStatus_def)

lemma shutdown_unreachable:
  assumes "inverter s = Some iv" "isProducing (inverters e iv)" "\<not> isReachable (inverters e iv)"
    "\<not> (0 < shutdownTimeout s \<and> shutdownTimeout s < millis e)"
  shows "shutdown st e s = (True, announceStatus st e s)"
  using assms by (simp add: shutdown_def Let_def)

lemma shutdown_elapsed:
  assumes "0 < shutdownTimeout s" "shutdownTimeout s < millis e"
  shows "shutdown st e s
     = (False, (announceStatus st e s)\<lparr>inverter := None, shutdownTimeout := 0\<rparr>)"
  using assms by (auto simp add: shutdown_def Let_def split: option.split)

lemma shutdown_starts_timer:
  assumes "inverter s = Some iv" "isProducing (inverters e iv)" "isReachable (inverters e iv)"
    "shutdownTimeout s = 0"
  shows "fst (shutdown st e s) = True"
    "shutdownTimeout (snd (shutdown st e s)) = millis e + 10000"
    "inverter (snd (shutdown st e s)) = Some iv"
  using assms by (simp_all add: shutdown_def commitPowerLimit_def Let_def)

lemma shutdown_run_unreachable:
  assumes "inverter s = Some iv"
    and "\<forall>c \<in> set calls. isProducing (inverters (snd c) iv)
           \<and> \<not> isReachable (inverters (snd c) iv)
           \<and> \<not> (0 < shutdownTimeout s \<and> shutdownTimeout s < millis (snd c))"
  shows "inverter (snd (shutdown_run calls s)) = Some iv
     \<and> shutdownTimeout (snd (shutdown_run calls s)) = shutdownTimeout s
     \<and> fst (shutdown_run calls s) = replicate (length calls) True
     \<and> filter is_command (out (snd (shutdown_run calls s)))
       = filter is_command (out s)"
  using assms
proof (induction calls arbitrary: s)
  case Nil
  then show ?case by simp
next
  case (Cons c cs)
  let ?s' = "announceStatus (fst c) (snd c) s"
  from Cons.prems have step: "shutdown (fst c) (snd c) s = (True, ?s')"
    by (intro shutdown_unreachable) auto
  have inv': "inverter ?s' = Some iv" using Cons.prems(1) by simp
  have rest: "\<forall>c \<in> set cs. isProducing (inverters (snd c) iv)
           \<and> \<not> isReachable (inverters (snd c) iv)
           \<and> \<not> (0 < shutdownTimeout ?s' \<and> shutdownTimeout ?s' < millis (snd c))"
    using Cons.prems(2) by simp
  have outs: "filter is_command (out ?s')
      = filter is_command (out s)"
    by (simp add: announceStatus_def)
  from Cons.IH [OF inv' rest] step outs show ?case
    by (simp add: Let_def)
qed

lemma announceStatus_lastStatus [simp]: "lastStatus (announceStatus st e s) = st"
  by (simp add: announceStatus_def)

lemma loop_inverter_mode:
  "loop_inverter e s = Inr (iv, s1) \<Longrightarrow> mode s1 = mode s"
  by (auto simp add: loop_inverter_def Let_def split: if_splits option.splits)

lemma loop_in_unconditional_mode:
  assumes "loop_inverter e s = Inr (iv, s1)" "mode s = UnconditionalFullSolarPassthrough"
  shows "loop h e s = unconditionalSolarPassthrough iv e s1"
  using assms loop_inverter_mode [OF assms(1)] by (simp add: loop_def)

text \<open>Readings of the power meter do not reach the functions of the unconditional mode.\<close>

lemma meter_free_functions:
  fixes e :: env and p :: real and u :: uint32 and b :: bool
  defines "e' \<equiv> e\<lparr>PowerMeter_getPowerTotal := p, PowerMeter_getLastPowerMeterUpdate := u,
                   config := (config e)\<lparr>PowerMeter_Enabled := b\<rparr>\<rparr>"
  shows "announceStatus st e' s = announceStatus st e s"
    and "commitPowerLimit iv l en e' s = commitPowerLimit iv l en e s"
    and "shutdown st e' s = shutdown st e s"
    and "shutdown_last e' s = shutdown_last e s"
    and "effPowerLimit iv n e' = effPowerLimit iv n e"
    and "setNewPowerLimit iv n e' s = setNewPowerLimit iv n e s"
    and "inverterPowerDcToAc iv d e' = inverterPowerDcToAc iv d e"
    and "unconditionalSolarPassthrough iv e' s = unconditionalSolarPassthrough iv e s"
    and "loop_inverter e' s = loop_inverter e s"
proof -
  have sel: "inverters e' = inverters e" "millis e' = millis e"
    "getLocalTime e' = getLocalTime e" "getInverterByPos e' = getInverterByPos e"
    "veFrame_V e' = veFrame_V e" "veFrame_I e' = veFrame_I e"
    "VeDirectMppt_isDataValid e' = VeDirectMppt_isDataValid e"
    "PowerLimiter_LowerPowerLimit (config e') = PowerLimiter_LowerPowerLimit (config e)"
    "PowerLimiter_UpperPowerLimit (config e') = PowerLimiter_UpperPowerLimit (config e)"
    "PowerLimiter_TargetPowerConsumptionHysteresis (config e')
       = PowerLimiter_TargetPowerConsumptionHysteresis (config e)"
    "PowerLimiter_SolarPassThroughLosses (config e')
       = PowerLimiter_SolarPassThroughLosses (config e)"
    "PowerLimiter_VerboseLogging (config e') = PowerLimiter_VerboseLogging (config e)"
    "PowerLimiter_Enabled (config e') = PowerLimiter_Enabled (config e)"
    "PowerLimiter_InverterId (config e') = PowerLimiter_InverterId (config e)"
    "Vedirect_Enabled (config e') = Vedirect_Enabled (config e)"
    by (simp_all add: e'_def)
  show a: "announceStatus st e' s = announceStatus st e s" for st s
    unfolding announceStatus_def sel by (rule refl)
  show c: "commitPowerLimit iv l en e' s = commitPowerLimit iv l en e s" for iv l en s
    unfolding commitPowerLimit_def sel by (rule refl)
  show sd: "shutdown st e' s = shutdown st e s" for st s
    unfolding shutdown_def a c sel by (rule refl)
  show sl: "shutdown_last e' s = shutdown_last e s" for s
    unfolding shutdown_last_def sd by (rule refl)
  show ef: "effPowerLimit iv n e' = effPowerLimit iv n e" for iv n
    unfolding effPowerLimit_def sel by (rule refl)
  show sn: "setNewPowerLimit iv n e' s = setNewPowerLimit iv n e s" for iv n s
    unfolding setNewPowerLimit_def sl ef c sel by (rule refl)
  show dc: "inverterPowerDcToAc iv d e' = inverterPowerDcToAc iv d e" for iv d
    unfolding inverterPowerDcToAc_def sel by (rule refl)
  show "unconditionalSolarPassthrough iv e' s = unconditionalSolarPassthrough iv e s"
    unfolding unconditionalSolarPassthrough_def sd sn dc a sel by (rule refl)
  show "loop_inverter e' s = loop_inverter e s"
    unfolding loop_inverter_def sd sl a sel by (rule refl)
qed

lemma commitPowerLimit_frame [simp]:
  "calculationBackoffMs (commitPowerLimit iv l en e s) = calculationBackoffMs s"
  "inverter (commitPowerLimit iv l en e s) = inverter s"
  "shutdownTimeout (commitPowerLimit iv l en e s) = shutdownTimeout s"
  by (simp_all add: commitPowerLimit_def Let_def)

lemma shutdown_backoff [simp]:
  "calculationBackoffMs (snd (shutdown st e s)) = calculationBackoffMs s"
  by (simp add: shutdown_def Let_def split: option.split)

lemma shutdown_last_backoff [simp]:
  "calculationBackoffMs (snd (shutdown_last e s)) = calculationBackoffMs s"
  by (simp add: shutdown_last_def)

lemma setNewPowerLimit_backoff [simp]:
  "calculationBackoffMs (snd (setNewPowerLimit iv n e s)) = calculationBackoffMs s"
  by (simp add: setNewPowerLimit_def Let_def)

lemma unconditionalSolarPassthrough_backoff [simp]:
  "calculationBackoffMs (unconditionalSolarPassthrough iv e s) = calculationBackoffMs s"
  by (simp add: unconditionalSolarPassthrough_def Let_def)

lemma calcNextInverterRestart_frame [simp]:
  "calculationBackoffMs (calcNextInverterRestart e s) = calculationBackoffMs s"
  "inverter (calcNextInverterRestart e s) = inverter s"
  "shutdownTimeout (calcNextInverterRestart e s) = shutdownTimeout s"
  "out (calcNextInverterRestart e s) = out s"
  by (simp_all add: calcNextInverterRestart_def Let_def split: option.split)

lemma loop_restart_frame [simp]:
  "calculationBackoffMs (loop_restart iv e s) = calculationBackoffMs s"
  "inverter (loop_restart iv e s) = inverter s"
  "shutdownTimeout (loop_restart iv e s) = shutdownTimeout s"
  by (simp_all add: loop_restart_def Let_def)

lemma loop_restart_out:
  "\<exists>evs. out (loop_restart iv e s) = out s @ evs \<and> \<not> list_ex is_limit_command evs"
  by (simp add: loop_restart_def Let_def)

lemma loop_discharge_frame [simp]:
  "calculationBackoffMs (loop_discharge h e s) = calculationBackoffMs s"
  "inverter (loop_discharge h e s) = inverter s"
  "shutdownTimeout (loop_discharge h e s) = shutdownTimeout s"
  "out (loop_discharge h e s) = out s"
  by (simp_all add: loop_discharge_def Let_def)

lemma useFullSolarPassthrough_frame [simp]:
  "calculationBackoffMs (snd (useFullSolarPassthrough e s)) = calculationBackoffMs s"
  "shutdownTimeout (snd (useFullSolarPassthrough e s)) = shutdownTimeout s"
  "out (snd (useFullSolarPassthrough e s)) = out s"
  by (simp_all add: useFullSolarPassthrough_eq)

lemma calcPowerLimit_frame [simp]:
  "calculationBackoffMs (snd (calcPowerLimit iv S D e s)) = calculationBackoffMs s"
  "inverter (snd (calcPowerLimit iv S D e s)) = inverter s"
  "shutdownTimeout (snd (calcPowerLimit iv S D e s)) = shutdownTimeout s"
  "out (snd (calcPowerLimit iv S D e s)) = out s"
  by (simp_all add: calcPowerLimit_def Let_def)

lemma announceStatus_out:
  "\<exists>evs. out (announceStatus st e s) = out s @ evs \<and> \<not> list_ex is_limit_command evs"
  by (simp add: announceStatus_def)

lemma setNewPowerLimit_sent:
  assumes "inverter s = Some iv" "isReachable (inverters e iv)"
    "getLastLimitCommandSuccess (inverters e iv) \<noteq> CMD_PENDING"
    "getLastPowerCommandSuccess (inverters e iv) \<noteq> CMD_PENDING"
    "shutdownTimeout s = 0"
  shows "\<exists>evs. out (snd (setNewPowerLimit iv n e s)) = out s @ evs
           \<and> list_ex is_limit_command evs = fst (setNewPowerLimit iv n e s)"
proof (cases "n < PowerLimiter_LowerPowerLimit (config e)")
  case True
  obtain evs where evs: "out (announceStatus (lastStatus s) e s) = out s @ evs"
      "\<not> list_ex is_limit_command evs"
    using announceStatus_out by blast
  from True assms evs show ?thesis
    by (simp add: setNewPowerLimit_def shutdown_last_def shutdown_def commitPowerLimit_def
        Let_def)
next
  case False
  then show ?thesis
    by (simp add: setNewPowerLimit_def commitPowerLimit_enable Let_def)
qed

lemma loop_inverter_Inr:
  assumes "loop_inverter e s = Inr (iv, sb)"
  shows "sb = s\<lparr>verboseLogging := PowerLimiter_VerboseLogging (config e), inverter := Some iv\<rparr>"
    and "shutdownTimeout s = 0"
    and "isReachable (inverters e iv)"
    and "getLastLimitCommandSuccess (inverters e iv) \<noteq> CMD_PENDING"
    and "getLastPowerCommandSuccess (inverters e iv) \<noteq> CMD_PENDING"
  using assms
  by (auto simp add: loop_inverter_def Let_def word_gt_0 split: if_splits option.splits)

lemma loop_inverter_Inl_backoff:
  "loop_inverter e s = Inl s' \<Longrightarrow> calculationBackoffMs s' = calculationBackoffMs s"
  by (auto simp add: loop_inverter_def Let_def split: if_splits option.splits)

lemma loop_meter_Inr: "loop_meter iv e s = Inr sc \<Longrightarrow> sc = s"
  by (auto simp add: loop_meter_def Let_def split: if_splits)

lemma loop_meter_Inl_backoff:
  "loop_meter iv e s = Inl s' \<Longrightarrow> calculationBackoffMs s' = calculationBackoffMs s"
  by (auto simp add: loop_meter_def Let_def split: if_splits)

lemma limit_sent_append:
  "out s' = out s @ evs \<Longrightarrow> limit_sent s s' = list_ex is_limit_command evs"
  by (simp add: limit_sent_def)

lemma loop_calculate_backoff:
  assumes "inverter s = Some iv" "isReachable (inverters e iv)"
    "getLastLimitCommandSuccess (inverters e iv) \<noteq> CMD_PENDING"
    "getLastPowerCommandSuccess (inverters e iv) \<noteq> CMD_PENDING"
    "shutdownTimeout s = 0" "out s = out s0"
  shows "calculationBackoffMs (loop_calculate h iv e s)
     = (if limit_sent s0 (loop_calculate h iv e s) then calculationBackoffMsDefault h
        else min 1024 (calculationBackoffMs s * 2))"
proof -
  define sa where "sa = loop_discharge h e (loop_restart iv e s)"
  define calc where
    "calc = calcPowerLimit iv (canUseDirectSolarPower e sa) (batteryDischargeEnabled sa) e sa"
  define upd where "upd = setNewPowerLimit iv (fst calc) e (snd calc)"
  have pre: "inverter (snd calc) = Some iv" "shutdownTimeout (snd calc) = 0"
    using assms by (simp_all add: calc_def sa_def)
  obtain r where r: "out (loop_restart iv e s) = out s @ r" "\<not> list_ex is_limit_command r"
    using loop_restart_out by blast
  then have out_calc: "out (snd calc) = out s0 @ r"
    using assms(6) by (simp add: calc_def sa_def)
  obtain evs where evs: "out (snd upd) = out (snd calc) @ evs"
      "list_ex is_limit_command evs = fst upd"
    unfolding upd_def
    using setNewPowerLimit_sent [OF pre(1) assms(2) assms(3) assms(4) pre(2)] by blast
  have b: "calculationBackoffMs (snd upd) = calculationBackoffMs s"
    by (simp add: upd_def calc_def sa_def)
  have unfold: "loop_calculate h iv e s
      = (if \<not> fst upd
         then announceStatus Stable e
                ((snd upd)\<lparr>lastCalculation := millis e,
                           calculationBackoffMs := min 1024 (calculationBackoffMs (snd upd) * 2)\<rparr>)
         else (snd upd)\<lparr>lastCalculation := millis e,
                          calculationBackoffMs := calculationBackoffMsDefault h\<rparr>)"
    by (simp add: loop_calculate_def Let_def upd_def calc_def sa_def)
  show ?thesis
  proof (cases "fst upd")
    case True
    then have "out (loop_calculate h iv e s) = out s0 @ (r @ evs)"
      using evs out_calc by (simp add: unfold)
    then have "limit_sent s0 (loop_calculate h iv e s) = list_ex is_limit_command (r @ evs)"
      by (rule limit_sent_append)
    with True evs r show ?thesis by (simp add: unfold)
  next
    case False
    define x where "x = (snd upd)\<lparr>lastCalculation := millis e,
        calculationBackoffMs := min 1024 (calculationBackoffMs (snd upd) * 2)\<rparr>"
    have x: "out x = out (snd upd)"
      "calculationBackoffMs x = min 1024 (calculationBackoffMs (snd upd) * 2)"
      by (simp_all add: x_def)
    obtain st where st: "out (announceStatus Stable e x) = out x @ st"
        "\<not> list_ex is_limit_command st"
      using announceStatus_out by blast
    from False have unfold': "loop_calculate h iv e s = announceStatus Stable e x"
      by (simp add: unfold x_def)
    have "out (loop_calculate h iv e s) = out s0 @ (r @ evs @ st)"
      using evs out_calc st x by (simp add: unfold')
    then have "limit_sent s0 (loop_calculate h iv e s)
        = list_ex is_limit_command (r @ evs @ st)"
      by (rule limit_sent_append)
    with False evs r st b x show ?thesis by (simp add: unfold')
  qed
qed

lemma backoff_when_calculating:
  assumes "loop_calculates e s"
  shows "calculationBackoffMs (loop h e s)
     = (if limit_sent s (loop h e s) then calculationBackoffMsDefault h
        else min 1024 (calculationBackoffMs s * 2))"
proof -
  from assms obtain p where p: "loop_inverter e s = Inr p"
    by (cases "loop_inverter e s") (simp_all add: loop_calculates_def)
  obtain iv sb where i: "loop_inverter e s = Inr (iv, sb)"
    using p by (cases p) simp
  from assms have m: "mode sb \<noteq> UnconditionalFullSolarPassthrough"
    and k: "case loop_meter iv e sb of Inl s' \<Rightarrow> False | Inr sc \<Rightarrow> True"
    by (simp_all add: loop_calculates_def i)
  from k obtain sc where c: "loop_meter iv e sb = Inr sc"
    by (cases "loop_meter iv e sb") simp_all
  from c have sc: "sc = sb" by (rule loop_meter_Inr)
  have l: "loop h e s = loop_calculate h iv e sb"
    using i m c sc by (simp add: loop_def)
  note f = loop_inverter_Inr [OF i]
  have "calculationBackoffMs (loop_calculate h iv e sb)
     = (if limit_sent s (loop_calculate h iv e sb) then calculationBackoffMsDefault h
        else min 1024 (calculationBackoffMs sb * 2))"
    by (rule loop_calculate_backoff) (use f in simp_all)
  then show ?thesis using f(1) by (simp add: l)
qed

lemma backoff_unchanged_otherwise:
  assumes "\<not> loop_calculates e s"
  shows "calculationBackoffMs (loop h e s) = calculationBackoffMs s"
proof (cases "loop_inverter e s")
  case (Inl s')
  then show ?thesis by (simp add: loop_def loop_inverter_Inl_backoff)
next
  case (Inr p)
  obtain iv sb where p: "p = (iv, sb)" by (cases p)
  note f = loop_inverter_Inr [OF Inr [unfolded p]]
  have sbb: "calculationBackoffMs sb = calculationBackoffMs s" using f(1) by simp
  show ?thesis
  proof (cases "mode sb = UnconditionalFullSolarPassthrough")
    case True
    then show ?thesis using Inr p sbb by (simp add: loop_def)
  next
    case False
    with assms Inr p obtain s' where s': "loop_meter iv e sb = Inl s'"
      by (auto simp add: loop_calculates_def split: sum.splits)
    then show ?thesis
      using Inr p False sbb by (simp add: loop_def loop_meter_Inl_backoff)
  qed
qed

lemma backoff_double_in_range:
  fixes b d :: "32 word"
  assumes "d \<le> 1024" "d \<le> b" "b \<le> 1024"
  shows "d \<le> min 1024 (b * 2)" "min 1024 (b * 2) \<le> 1024"
proof -
  have "unat (b * 2) = unat b * 2"
    using assms(3) by (simp add: unat_word_ariths word_le_nat_alt)
  then have "b \<le> b * 2" by (simp add: word_le_nat_alt)
  with assms show "d \<le> min 1024 (b * 2)" by simp
  show "min 1024 (b * 2) \<le> 1024" by simp
qed

lemma backoff_range_after_tick:
  assumes "calculationBackoffMsDefault h \<le> 1024"
    "calculationBackoffMsDefault h \<le> calculationBackoffMs s" "calculationBackoffMs s \<le> 1024"
  shows "calculationBackoffMsDefault h \<le> calculationBackoffMs (loop h e s)
     \<and> calculationBackoffMs (loop h e s) \<le> 1024"
proof (cases "loop_calculates e s")
  case True
  show ?thesis
    using assms backoff_double_in_range [OF assms]
    by (simp add: backoff_when_calculating [OF True])
next
  case False
  show ?thesis using assms by (simp add: backoff_unchanged_otherwise [OF False])
qed

lemma backoff_range_after_run:
  assumes "calculationBackoffMsDefault h \<le> 1024"
    "calculationBackoffMsDefault h \<le> calculationBackoffMs s" "calculationBackoffMs s \<le> 1024"
  shows "calculationBackoffMsDefault h \<le> calculationBackoffMs (loop_run h es s)
     \<and> calculationBackoffMs (loop_run h es s) \<le> 1024"
  using assms(2,3)
proof (induction es arbitrary: s)
  case Nil
  then show ?case by simp
next
  case (Cons e es)
  from backoff_range_after_tick [OF assms(1) Cons.prems, of e] Cons.IH [of "loop h e s"]
  show ?case by simp
qed

text \<open>The definitions of the model and of the sample inputs, for evaluation.\<close>

lemmas model_defs =
  loop_def loop_inverter_def loop_meter_def loop_calculate_def loop_restart_def
  loop_discharge_def loop_calculates_def limit_sent_def
  unconditionalSolarPassthrough_def calcNextInverterRestart_def
  isStopThresholdReached_def isStartThresholdReached_def isBelowStopThreshold_def
  testThreshold_def getLoadCorrectedVoltage_def canUseDirectSolarPower_def
  getSolarChargePower_def useFullSolarPassthrough_def inverterPowerDcToAc_def
  calcPowerLimit_def setNewPowerLimit_def effPowerLimit_def commitPowerLimit_def
  shutdown_def shutdown_last_def announceStatus_def c_round_def c_trunc_def Let_def

lemmas fixture_defs =
  env0_def cfg0_def inv0_def dpl0_def dpl1_def hdr0_def dpl_unconditional_def

subsection \<open>C1: the decision table of calcPowerLimit\<close>

text \<open>
  C1, as the claim states it, fails: with solar power enabled and battery discharge disabled
  (case 2) the claim gives \<open>min raw solarAC\<close> whatever the external auto-power source does,
  but the code returns 0 when \<^verbatim>\<open>HuaweiCan.getAutoPowerStatus()\<close> is true. With a meter
  reading of 500 W, 300 W of solar power (291 W on the AC side) and the PSU active, the
  code returns 0 and the table of the claim gives 291.
\<close>

theorem calcPowerLimit_auto_power_counterexample:
  "fst (calcPowerLimit 1 True False (env0\<lparr>HuaweiCan_getAutoPowerStatus := True\<rparr>) dpl1) = 0
   \<and> calcPowerLimit_spec 1 True False (env0\<lparr>HuaweiCan_getAutoPowerStatus := True\<rparr>) dpl1 = 291"
  by (simp add: calcPowerLimit_def calcPowerLimit_spec_def rawPowerLimit_spec_def
      inverterPowerDcToAc_def getSolarChargePower_def canUseDirectSolarPower_def
      isBelowStopThreshold_def testThreshold_def useFullSolarPassthrough_def
      c_round_def c_trunc_def Let_def env0_def cfg0_def inv0_def dpl0_def dpl1_def)

text \<open>
  C1, amended: for every combination of inputs \<^verbatim>\<open>calcPowerLimit\<close> returns 0 when solar
  power and battery discharge are both disabled (case 1); \<open>max raw solarAC\<close> when discharge
  is enabled and \<^verbatim>\<open>useFullSolarPassthrough()\<close> is true (case 5); otherwise 0 when the
  external auto-power source is active (cases 2, 3 and 4 alike); otherwise
  \<open>min raw solarAC\<close> when solar power is enabled and discharge is disabled (case 2) and
  \<open>raw\<close> when discharge is enabled (cases 3 and 4). Here \<open>raw\<close> is \<open>rawPowerLimit\<close>: the
  rounded meter reading, plus the integer part of the inverter's AC power when the
  inverter is behind the meter, minus the target consumption; \<open>solarAC\<close> is the
  AC equivalent of \<^verbatim>\<open>getSolarChargePower()\<close>. The latch of the full passthrough is updated
  exactly when discharge is enabled.
\<close>

theorem calcPowerLimit_table:
  "fst (calcPowerLimit iv S D e s)
     = (if \<not> S \<and> \<not> D then 0
        else if D \<and> fst (useFullSolarPassthrough e s)
        then max (rawPowerLimit iv e) (inverterPowerDcToAc iv (getSolarChargePower e s) e)
        else if HuaweiCan_getAutoPowerStatus e then 0
        else if S \<and> \<not> D
        then min (rawPowerLimit iv e) (inverterPowerDcToAc iv (getSolarChargePower e s) e)
        else rawPowerLimit iv e)
   \<and> snd (calcPowerLimit iv S D e s)
     = (if D then snd (useFullSolarPassthrough e s) else s)"
  by (simp add: calcPowerLimit_def rawPowerLimit_def Let_def max_def)

theorem calcPowerLimit_table_witness:
  "fst (calcPowerLimit 1 False False env0 dpl1) = 0
   \<and> fst (calcPowerLimit 1 True False env0 dpl1) = 291
   \<and> fst (calcPowerLimit 1 True False (env0\<lparr>HuaweiCan_getAutoPowerStatus := True\<rparr>) dpl1) = 0
   \<and> fst (calcPowerLimit 1 False True env0 dpl1) = 500
   \<and> fst (calcPowerLimit 1 True True (env0\<lparr>Battery_getSoC := 100, PowerMeter_getPowerTotal := 100\<rparr>) dpl1) = 291"
  using calcPowerLimit_table [of 1 False False env0 dpl1]
    calcPowerLimit_table [of 1 True False env0 dpl1]
    calcPowerLimit_table [of 1 True False "env0\<lparr>HuaweiCan_getAutoPowerStatus := True\<rparr>" dpl1]
    calcPowerLimit_table [of 1 False True env0 dpl1]
    calcPowerLimit_table [of 1 True True
       "env0\<lparr>Battery_getSoC := 100, PowerMeter_getPowerTotal := 100\<rparr>" dpl1]
  by (simp add: rawPowerLimit_def
      inverterPowerDcToAc_def getSolarChargePower_def canUseDirectSolarPower_def
      isBelowStopThreshold_def testThreshold_def useFullSolarPassthrough_def
      c_round_def c_trunc_def Let_def env0_def cfg0_def inv0_def dpl0_def dpl1_def)

text \<open>
  The code rounds the meter reading alone and truncates the AC power of the inverter; the
  formula of the specification rounds their sum. The two differ by one watt here.
\<close>

lemma rawPowerLimit_rounding_example:
  "rawPowerLimit 1 (env0\<lparr>config := cfg0\<lparr>PowerLimiter_IsInverterBehindPowerMeter := True\<rparr>,
       PowerMeter_getPowerTotal := 1 / 4, inverters := (\<lambda>sn. inv0\<lparr>AC_PAC := 1 / 2\<rparr>)\<rparr>) = 0
   \<and> rawPowerLimit_spec 1 (env0\<lparr>config := cfg0\<lparr>PowerLimiter_IsInverterBehindPowerMeter := True\<rparr>,
       PowerMeter_getPowerTotal := 1 / 4, inverters := (\<lambda>sn. inv0\<lparr>AC_PAC := 1 / 2\<rparr>)\<rparr>) = 1"
  by (simp add: rawPowerLimit_def rawPowerLimit_spec_def c_round_def c_trunc_def
      env0_def cfg0_def inv0_def)

subsection \<open>C2: the hysteresis of setNewPowerLimit\<close>

text \<open>
  C2: for a requested limit at or above the configured lower power limit,
  \<^verbatim>\<open>setNewPowerLimit\<close> skips (it returns false, sends nothing and leaves the last requested
  limit and its time unchanged) if and only if the effective limit differs from the last
  requested limit by less than the hysteresis and the last limit was sent less than
  60000 ms ago (in the \<^verbatim>\<open>uint32_t\<close> arithmetic of \<^verbatim>\<open>millis()\<close>). Otherwise it returns true,
  sends the effective limit (and a start command when the inverter is not producing) and
  records limit and time. A last command of 60 seconds or more is always sent again.
\<close>

theorem setNewPowerLimit_hysteresis:
  "PowerLimiter_LowerPowerLimit (config e) \<le> newPowerLimit \<longrightarrow>
     ((fst (setNewPowerLimit iv newPowerLimit e s) = False
        \<and> out (snd (setNewPowerLimit iv newPowerLimit e s)) = out s
        \<and> lastRequestedPowerLimit (snd (setNewPowerLimit iv newPowerLimit e s))
            = lastRequestedPowerLimit s
        \<and> lastPowerLimitMillis (snd (setNewPowerLimit iv newPowerLimit e s))
            = lastPowerLimitMillis s)
      = (\<bar>effPowerLimit iv newPowerLimit e - lastRequestedPowerLimit s\<bar>
           < PowerLimiter_TargetPowerConsumptionHysteresis (config e)
         \<and> millis e - lastPowerLimitMillis s < 60000))
     \<and> (\<bar>effPowerLimit iv newPowerLimit e - lastRequestedPowerLimit s\<bar>
           < PowerLimiter_TargetPowerConsumptionHysteresis (config e)
         \<and> millis e - lastPowerLimitMillis s < 60000
        \<longrightarrow> setNewPowerLimit iv newPowerLimit e s = (False, s))
     \<and> (\<not> (\<bar>effPowerLimit iv newPowerLimit e - lastRequestedPowerLimit s\<bar>
              < PowerLimiter_TargetPowerConsumptionHysteresis (config e)
            \<and> millis e - lastPowerLimitMillis s < 60000)
        \<longrightarrow> fst (setNewPowerLimit iv newPowerLimit e s) = True
          \<and> out (snd (setNewPowerLimit iv newPowerLimit e s))
              = out s @ ActivePowerControlRequest iv (effPowerLimit iv newPowerLimit e)
                          AbsolutNonPersistent
                        # (if isProducing (inverters e iv) then []
                           else [PowerControlRequest iv True])
          \<and> lastRequestedPowerLimit (snd (setNewPowerLimit iv newPowerLimit e s))
              = effPowerLimit iv newPowerLimit e
          \<and> lastPowerLimitMillis (snd (setNewPowerLimit iv newPowerLimit e s)) = millis e)
     \<and> (60000 \<le> millis e - lastPowerLimitMillis s
        \<longrightarrow> fst (setNewPowerLimit iv newPowerLimit e s) = True
          \<and> ActivePowerControlRequest iv (effPowerLimit iv newPowerLimit e) AbsolutNonPersistent
              \<in> set (out (snd (setNewPowerLimit iv newPowerLimit e s))))"
  by (auto simp add: setNewPowerLimit_def Let_def commitPowerLimit_enable)
theorem setNewPowerLimit_hysteresis_witness:
  "setNewPowerLimit 1 296 env0 dpl_sent = (False, dpl_sent)
   \<and> fst (setNewPowerLimit 1 296 (env0\<lparr>millis := 70000\<rparr>) dpl_sent) = True
   \<and> out (snd (setNewPowerLimit 1 296 (env0\<lparr>millis := 70000\<rparr>) dpl_sent))
       = [ActivePowerControlRequest 1 592 AbsolutNonPersistent]
   \<and> fst (setNewPowerLimit 1 300 (env0\<lparr>millis := 70000\<rparr>) dpl_sent) = True
   \<and> lastPowerLimitMillis (snd (setNewPowerLimit 1 300 (env0\<lparr>millis := 70000\<rparr>) dpl_sent))
       = 70000
   \<and> fst (setNewPowerLimit 1 250 env0 dpl_sent) = True
   \<and> lastRequestedPowerLimit (snd (setNewPowerLimit 1 250 env0 dpl_sent)) = 500"
  using setNewPowerLimit_hysteresis [of env0 296 1 dpl_sent]
    setNewPowerLimit_hysteresis [of "env0\<lparr>millis := 70000\<rparr>" 296 1 dpl_sent]
    setNewPowerLimit_hysteresis [of "env0\<lparr>millis := 70000\<rparr>" 300 1 dpl_sent]
    setNewPowerLimit_hysteresis [of env0 250 1 dpl_sent]
  by (simp add: effPowerLimit_def c_round_def Let_def
      env0_def cfg0_def inv0_def dpl0_def dpl1_def dpl_sent_def)

subsection \<open>C3: the lower bound and the effective limit of setNewPowerLimit\<close>

text \<open>
  C3: a requested limit strictly below the configured lower power limit makes
  \<^verbatim>\<open>setNewPowerLimit\<close> call \<^verbatim>\<open>shutdown()\<close> and return its result; it sends no limit of its
  own. Otherwise the effective limit of the code is the limit of the specification
  (\<open>effPowerLimit_spec\<close>): the request clamped to the upper power limit, multiplied by the
  number of DC channels over the number of producing ones (power above 2 W) and rounded
  when the producing channels are more than none and fewer than all, then clamped to the
  maximum power of the inverter. The call either skips or commits exactly this limit.
\<close>

theorem setNewPowerLimit_effective_limit:
  "(newPowerLimit < PowerLimiter_LowerPowerLimit (config e) \<longrightarrow>
      setNewPowerLimit iv newPowerLimit e s = shutdown_last e s)
   \<and> (PowerLimiter_LowerPowerLimit (config e) \<le> newPowerLimit \<longrightarrow>
      effPowerLimit iv newPowerLimit e = effPowerLimit_spec iv newPowerLimit e
      \<and> (setNewPowerLimit iv newPowerLimit e s = (False, s)
         \<or> setNewPowerLimit iv newPowerLimit e s
            = (True, commitPowerLimit iv (effPowerLimit_spec iv newPowerLimit e) True e s))
      \<and> (fst (setNewPowerLimit iv newPowerLimit e s) \<longrightarrow>
           lastRequestedPowerLimit (snd (setNewPowerLimit iv newPowerLimit e s))
             = effPowerLimit_spec iv newPowerLimit e
           \<and> ActivePowerControlRequest iv (effPowerLimit_spec iv newPowerLimit e)
                AbsolutNonPersistent
              \<in> set (out (snd (setNewPowerLimit iv newPowerLimit e s)))))"
  by (simp add: setNewPowerLimit_def Let_def effPowerLimit_refines commitPowerLimit_enable)
theorem setNewPowerLimit_effective_limit_witness:
  "fst (setNewPowerLimit 1 5 env0 dpl1) = True
   \<and> out (snd (setNewPowerLimit 1 5 env0 dpl1))
       = [StatusPrinted Initializing, PowerControlRequest 1 False,
          ActivePowerControlRequest 1 10 AbsolutNonPersistent]
   \<and> effPowerLimit 1 300 env0 = 600
   \<and> lastRequestedPowerLimit (snd (setNewPowerLimit 1 300 env0 dpl1)) = 600
   \<and> out (snd (setNewPowerLimit 1 300 env0 dpl1))
       = [ActivePowerControlRequest 1 600 AbsolutNonPersistent]
   \<and> effPowerLimit 1 201 env_three_of_four = 268"
  using setNewPowerLimit_effective_limit [of 5 env0 1 dpl1]
    setNewPowerLimit_effective_limit [of 300 env0 1 dpl1]
    setNewPowerLimit_effective_limit [of 201 env_three_of_four 1 dpl1]
  by (simp add: setNewPowerLimit_def effPowerLimit_def effPowerLimit_spec_def shutdown_last_def shutdown_def announceStatus_def
      commitPowerLimit_def c_round_def Let_def env_three_of_four_def
      env0_def cfg0_def inv0_def dpl0_def dpl1_def)

subsection \<open>C4: the calculation backoff\<close>

text \<open>
  C4, as the claim states it, fails: not every tick that commits a new limit resets the
  backoff. In the unconditional full solar passthrough the tick sends a limit of 582 W and
  leaves the backoff at 1024 ms, where the default is 128 ms.
\<close>

theorem loop_unconditional_commit_counterexample:
  "out (loop hdr0 env0 dpl_unconditional)
     = [ActivePowerControlRequest 1 582 AbsolutNonPersistent,
        StatusPrinted UnconditionalSolarPassthrough]
   \<and> limit_sent dpl_unconditional (loop hdr0 env0 dpl_unconditional)
   \<and> calculationBackoffMs dpl_unconditional = 1024
   \<and> calculationBackoffMs (loop hdr0 env0 dpl_unconditional) = 1024
   \<and> calculationBackoffMsDefault hdr0 = 128"
  by (simp add: model_defs fixture_defs)

text \<open>
  C4, amended: a tick that reaches the calculation of a new limit (\<open>loop_calculates\<close>)
  sets the backoff to the default when it sends a power limit command, and to the minimum
  of 1024 and twice the backoff when it sends none; every other tick leaves the backoff
  unchanged (the ticks that shut down or run the unconditional solar passthrough also when
  they commit a limit). When the default is at most 1024 ms and the backoff lies between
  the default and 1024 ms, it still does after every tick and after every sequence of
  ticks.
\<close>

theorem loop_backoff:
  "(loop_calculates e s \<longrightarrow>
      calculationBackoffMs (loop h e s)
        = (if limit_sent s (loop h e s) then calculationBackoffMsDefault h
           else min 1024 (calculationBackoffMs s * 2)))
   \<and> (\<not> loop_calculates e s \<longrightarrow>
      calculationBackoffMs (loop h e s) = calculationBackoffMs s)
   \<and> (calculationBackoffMsDefault h \<le> 1024
       \<and> calculationBackoffMsDefault h \<le> calculationBackoffMs s
       \<and> calculationBackoffMs s \<le> 1024 \<longrightarrow>
      calculationBackoffMsDefault h \<le> calculationBackoffMs (loop h e s)
      \<and> calculationBackoffMs (loop h e s) \<le> 1024
      \<and> calculationBackoffMsDefault h \<le> calculationBackoffMs (loop_run h es s)
      \<and> calculationBackoffMs (loop_run h es s) \<le> 1024)"
  using backoff_when_calculating [of e s h] backoff_unchanged_otherwise [of e s h]
    backoff_range_after_tick [of h s e] backoff_range_after_run [of h s es]
  by blast

theorem loop_backoff_witness:
  "loop_calculates env0 (dpl0\<lparr>calculationBackoffMs := 512\<rparr>)
   \<and> limit_sent (dpl0\<lparr>calculationBackoffMs := 512\<rparr>)
        (loop hdr0 env0 (dpl0\<lparr>calculationBackoffMs := 512\<rparr>))
   \<and> calculationBackoffMs (loop hdr0 env0 (dpl0\<lparr>calculationBackoffMs := 512\<rparr>)) = 128
   \<and> loop_calculates (env0\<lparr>millis := 10200\<rparr>) dpl_settled
   \<and> \<not> limit_sent dpl_settled (loop hdr0 (env0\<lparr>millis := 10200\<rparr>) dpl_settled)
   \<and> calculationBackoffMs (loop hdr0 (env0\<lparr>millis := 10200\<rparr>) dpl_settled) = 256
   \<and> \<not> loop_calculates env0 dpl_settled
   \<and> calculationBackoffMs (loop hdr0 env0 dpl_settled) = 128
   \<and> calculationBackoffMs
        (loop_run hdr0 [env0, env0\<lparr>millis := 10200\<rparr>, env0\<lparr>millis := 10500\<rparr>] dpl0) = 512"
  using loop_backoff [where e = env0 and s = "dpl0\<lparr>calculationBackoffMs := 512\<rparr>" and h = hdr0
      and es = "[env0, env0\<lparr>millis := 10200\<rparr>, env0\<lparr>millis := 10500\<rparr>]"]
    loop_backoff [where e = "env0\<lparr>millis := 10200\<rparr>" and s = dpl_settled and h = hdr0
      and es = "[]"]
    loop_backoff [where e = env0 and s = dpl_settled and h = hdr0 and es = "[]"]
    loop_backoff [where e = env0 and s = dpl0 and h = hdr0
      and es = "[env0, env0\<lparr>millis := 10200\<rparr>, env0\<lparr>millis := 10500\<rparr>]"]
  by (simp add: model_defs fixture_defs dpl_settled_def)

subsection \<open>C5: repeated shutdown calls and the shutdown deadline\<close>

text \<open>
  C5: for every sequence of \<^verbatim>\<open>shutdown\<close> calls on a bound inverter that produces and is
  unreachable, made while the stored deadline \<^verbatim>\<open>_shutdownTimeout\<close> has not elapsed (it is 0
  or not below \<^verbatim>\<open>millis()\<close>), every call returns true, the binding and the deadline stay
  as they are and no command is sent. The deadline is set to \<^verbatim>\<open>millis()\<close> plus 10000 by the
  first call that finds the inverter reachable. A call after the deadline has elapsed
  returns false and clears binding and deadline, whatever the inverter reports.
\<close>

theorem shutdown_deadline:
  "(inverter s = Some iv
     \<and> (\<forall>c \<in> set calls. isProducing (inverters (snd c) iv)
           \<and> \<not> isReachable (inverters (snd c) iv)
           \<and> \<not> (0 < shutdownTimeout s \<and> shutdownTimeout s < millis (snd c))) \<longrightarrow>
      inverter (snd (shutdown_run calls s)) = Some iv
      \<and> shutdownTimeout (snd (shutdown_run calls s)) = shutdownTimeout s
      \<and> fst (shutdown_run calls s) = replicate (length calls) True
      \<and> filter is_command (out (snd (shutdown_run calls s))) = filter is_command (out s))
   \<and> (inverter s = Some iv \<and> isProducing (inverters e iv) \<and> isReachable (inverters e iv)
       \<and> shutdownTimeout s = 0 \<longrightarrow>
      fst (shutdown st e s) = True
      \<and> shutdownTimeout (snd (shutdown st e s)) = millis e + 10000
      \<and> inverter (snd (shutdown st e s)) = Some iv)
   \<and> (0 < shutdownTimeout s \<and> shutdownTimeout s < millis e \<longrightarrow>
      fst (shutdown st e s) = False
      \<and> inverter (snd (shutdown st e s)) = None
      \<and> shutdownTimeout (snd (shutdown st e s)) = 0)"
  using shutdown_run_unreachable [of s iv calls] shutdown_starts_timer [of s iv e st]
    shutdown_elapsed [of s e st]
  by simp

theorem shutdown_deadline_witness:
  "inverter (snd (shutdown_run
       [(PowerMeterTimeout, env_unreachable 12000), (PowerMeterTimeout, env_unreachable 15000),
        (PowerMeterTimeout, env_unreachable 20000)] dpl_stopping)) = Some 1
   \<and> fst (shutdown_run
       [(PowerMeterTimeout, env_unreachable 12000), (PowerMeterTimeout, env_unreachable 15000),
        (PowerMeterTimeout, env_unreachable 20000)] dpl_stopping) = [True, True, True]
   \<and> shutdownTimeout (snd (shutdown PowerMeterTimeout env0 dpl1)) = 20000
   \<and> fst (shutdown PowerMeterTimeout (env_unreachable 20001) dpl_stopping) = False
   \<and> inverter (snd (shutdown PowerMeterTimeout (env_unreachable 20001) dpl_stopping)) = None
   \<and> shutdownTimeout (snd (shutdown PowerMeterTimeout (env_unreachable 20001) dpl_stopping)) = 0"
  using shutdown_deadline [where s = dpl_stopping and iv = 1 and st = PowerMeterTimeout
      and e = "env_unreachable 20001"
      and calls = "[(PowerMeterTimeout, env_unreachable 12000),
        (PowerMeterTimeout, env_unreachable 15000), (PowerMeterTimeout, env_unreachable 20000)]"]
    shutdown_deadline [where s = dpl1 and iv = 1 and st = PowerMeterTimeout
      and e = env0 and calls = "[]"]
  by (simp add: dpl_stopping_def env_unreachable_def dpl1_def dpl0_def env0_def inv0_def)

subsection \<open>C6: the solar availability oracle\<close>

text \<open>
  C6, as the claim states it, fails: at the stop threshold itself (a state of charge equal
  to the stop threshold) \<^verbatim>\<open>isStopThresholdReached()\<close> is true, but
  \<^verbatim>\<open>canUseDirectSolarPower()\<close> tests \<^verbatim>\<open>isBelowStopThreshold()\<close>, which is strict, and returns
  true with 300 W of solar power.
\<close>

theorem canUseDirectSolarPower_at_stop_threshold:
  "canUseDirectSolarPower (env0\<lparr>Battery_getSoC := 20\<rparr>) dpl0 = True
   \<and> canUseDirectSolarPower_spec (env0\<lparr>Battery_getSoC := 20\<rparr>) dpl0 = False"
  by (simp add: canUseDirectSolarPower_def canUseDirectSolarPower_spec_def
      isBelowStopThreshold_def isStopThresholdReached_def testThreshold_def
      env0_def dpl0_def cfg0_def)

text \<open>
  C6, amended: \<^verbatim>\<open>canUseDirectSolarPower()\<close> is true if and only if solar passthrough is
  enabled, the battery is not strictly below the stop threshold
  (\<^verbatim>\<open>isBelowStopThreshold()\<close>, the comparison \<open><\<close>), the solar charger is enabled, its data
  is valid and the solar power is at least 20 W. \<^verbatim>\<open>getSolarChargePower()\<close> is voltage
  times current, cut to an integer, when direct solar power is usable, and 0 otherwise.
\<close>

theorem canUseDirectSolarPower_strict:
  "canUseDirectSolarPower e s
     = (PowerLimiter_SolarPassThroughEnabled (config e)
        \<and> \<not> isBelowStopThreshold e s
        \<and> Vedirect_Enabled (config e)
        \<and> VeDirectMppt_isDataValid e
        \<and> veFrame_PPV e \<ge> 20)
   \<and> isBelowStopThreshold e s
     = testThreshold (real (PowerLimiter_BatterySocStopThreshold (config e)))
         (PowerLimiter_VoltageStopThreshold (config e)) (\<lambda>a b. a < b) e s
   \<and> getSolarChargePower e s
     = (if canUseDirectSolarPower e s then c_trunc (veFrame_V e * veFrame_I e) else 0)"
  by (auto simp add: canUseDirectSolarPower_def getSolarChargePower_def isBelowStopThreshold_def)

theorem canUseDirectSolarPower_strict_witness:
  "canUseDirectSolarPower (env0\<lparr>Battery_getSoC := 20\<rparr>) dpl0
   \<and> getSolarChargePower (env0\<lparr>Battery_getSoC := 20\<rparr>) dpl0 = 300
   \<and> \<not> canUseDirectSolarPower (env0\<lparr>Battery_getSoC := 19\<rparr>) dpl0
   \<and> getSolarChargePower (env0\<lparr>Battery_getSoC := 19\<rparr>) dpl0 = 0"
  using canUseDirectSolarPower_strict [of "env0\<lparr>Battery_getSoC := 20\<rparr>" dpl0]
    canUseDirectSolarPower_strict [of "env0\<lparr>Battery_getSoC := 19\<rparr>" dpl0]
  by (simp add: testThreshold_def c_trunc_def env0_def dpl0_def cfg0_def)

subsection \<open>C7: the latch of the full solar passthrough\<close>

text \<open>
  C7, as the claim states it, fails: \<^verbatim>\<open>useFullSolarPassthrough()\<close> returns false and leaves
  the latch alone when solar passthrough is disabled in the configuration, also for a
  measurement that meets the start condition (here a state of charge of 100 percent).
\<close>

theorem useFullSolarPassthrough_guard_counterexample:
  "fullPassthroughStart (env0\<lparr>config := cfg0\<lparr>PowerLimiter_SolarPassThroughEnabled := False\<rparr>,
                              Battery_getSoC := 100\<rparr>) dpl0
   \<and> latch_spec True False (fullSolarPassThroughEnabled dpl0) = True
   \<and> fst (useFullSolarPassthrough
            (env0\<lparr>config := cfg0\<lparr>PowerLimiter_SolarPassThroughEnabled := False\<rparr>,
                  Battery_getSoC := 100\<rparr>) dpl0) = False
   \<and> fullSolarPassThroughEnabled (snd (useFullSolarPassthrough
            (env0\<lparr>config := cfg0\<lparr>PowerLimiter_SolarPassThroughEnabled := False\<rparr>,
                  Battery_getSoC := 100\<rparr>) dpl0)) = False"
  by (simp add: useFullSolarPassthrough_def fullPassthroughStart_def testThreshold_def
      latch_spec_def env0_def cfg0_def dpl0_def)

text \<open>
  C7, amended: when solar passthrough is enabled in the configuration, one call sets the
  latch to false when the measurement meets the stop condition, to true when it meets the
  start condition and not the stop condition, and keeps the previous value otherwise;
  the call returns the new latch. The two conditions exclude each other when the stop
  voltage is not above the start voltage. When solar passthrough is disabled the call
  returns false and changes nothing. For every sequence of readings with solar
  passthrough enabled, the latch after the calls is the hysteresis latch \<open>latch_run\<close>
  folded over the start and stop conditions of the readings.
\<close>

theorem useFullSolarPassthrough_latch:
  "(PowerLimiter_SolarPassThroughEnabled (config e) \<longrightarrow>
      useFullSolarPassthrough e s
        = (latch_step (fullPassthroughStart e s) (fullPassthroughStop e s)
             (fullSolarPassThroughEnabled s),
           s\<lparr>fullSolarPassThroughEnabled :=
               latch_step (fullPassthroughStart e s) (fullPassthroughStop e s)
                 (fullSolarPassThroughEnabled s)\<rparr>))
   \<and> (\<not> PowerLimiter_SolarPassThroughEnabled (config e) \<longrightarrow>
      useFullSolarPassthrough e s = (False, s))
   \<and> (PowerLimiter_FullSolarPassThroughStopVoltage (config e)
        \<le> PowerLimiter_FullSolarPassThroughStartVoltage (config e) \<longrightarrow>
      \<not> (fullPassthroughStart e s \<and> fullPassthroughStop e s))
   \<and> ((\<forall>x \<in> set es. PowerLimiter_SolarPassThroughEnabled (config x)) \<longrightarrow>
      fullSolarPassThroughEnabled (useFullSolarPassthrough_run es s)
        = latch_run (fullSolarPassThroughEnabled s)
            (map (\<lambda>x. (fullPassthroughStart x s, fullPassthroughStop x s)) es))"
  using useFullSolarPassthrough_eq [of e s] start_stop_exclusive [of e s]
    useFullSolarPassthrough_run_latch [of es s]
  by simp

theorem useFullSolarPassthrough_latch_witness:
  "useFullSolarPassthrough (env_volt 58) dpl1 = (True, dpl1\<lparr>fullSolarPassThroughEnabled := True\<rparr>)
   \<and> useFullSolarPassthrough
        ((env_volt 58)\<lparr>config := cfg0\<lparr>PowerLimiter_SolarPassThroughEnabled := False\<rparr>\<rparr>) dpl1
       = (False, dpl1)
   \<and> fullSolarPassThroughEnabled
        (useFullSolarPassthrough_run [env_volt 54, env_volt 58, env_volt 56] dpl1) = True
   \<and> fullSolarPassThroughEnabled
        (useFullSolarPassthrough_run
           [env_volt 54, env_volt 58, env_volt 56, env_volt 54, env_volt 56] dpl1) = False"
  using useFullSolarPassthrough_latch [where e = "env_volt 58" and s = dpl1
      and es = "[env_volt 54, env_volt 58, env_volt 56]"]
    useFullSolarPassthrough_latch [where s = dpl1 and es = "[]"
      and e = "(env_volt 58)\<lparr>config := cfg0\<lparr>PowerLimiter_SolarPassThroughEnabled := False\<rparr>\<rparr>"]
    useFullSolarPassthrough_latch [where e = "env_volt 58" and s = dpl1
      and es = "[env_volt 54, env_volt 58, env_volt 56, env_volt 54, env_volt 56]"]
  by (simp add: latch_step_def fullPassthroughStart_def fullPassthroughStop_def
      testThreshold_def getLoadCorrectedVoltage_def env_volt_def dpl1_def
      env0_def cfg0_def inv0_def dpl0_def)

subsection \<open>C8: testThreshold and the load corrected voltage\<close>

text \<open>
  C8: \<^verbatim>\<open>testThreshold\<close> evaluates \<open>compare\<close> on the state of charge and the SoC threshold
  exactly when the battery interface is enabled, the SoC threshold is positive, the battery
  reading is valid and younger than 60 seconds; otherwise it is false when the voltage
  threshold is not positive, and otherwise \<open>compare\<close> on the load corrected voltage and the
  voltage threshold. The load corrected voltage is the DC voltage plus the AC power times
  the correction factor; it is 0 when the DC voltage is not positive, and 0 with a logged
  programmer error when no inverter is bound.
\<close>

theorem testThreshold_sources:
  "(Battery_Enabled (config e) \<and> socThreshold > 0 \<and> Battery_isValid e
      \<and> Battery_getSoCAgeSeconds e < 60
    \<longrightarrow> testThreshold socThreshold voltThreshold compare e s
        = compare (real (Battery_getSoC e)) socThreshold)
   \<and> (\<not> (Battery_Enabled (config e) \<and> socThreshold > 0 \<and> Battery_isValid e
           \<and> Battery_getSoCAgeSeconds e < 60)
      \<longrightarrow> testThreshold socThreshold voltThreshold compare e s
          = (if voltThreshold \<le> 0 then False
             else compare (fst (getLoadCorrectedVoltage e s)) voltThreshold))
   \<and> (inverter s = None
      \<longrightarrow> getLoadCorrectedVoltage e s
          = (0, [''DPL getLoadCorrectedVoltage: no inverter (programmer error)'']))
   \<and> (\<forall>iv. inverter s = Some iv
      \<longrightarrow> getLoadCorrectedVoltage e s
          = (if DC_UDC (inverters e iv) (PowerLimiter_InverterChannelId (config e)) \<le> 0
             then 0
             else DC_UDC (inverters e iv) (PowerLimiter_InverterChannelId (config e))
                  + AC_PAC (inverters e iv) * PowerLimiter_VoltageLoadCorrectionFactor (config e),
             []))"
  by (simp add: testThreshold_def getLoadCorrectedVoltage_def Let_def)

theorem testThreshold_sources_witness:
  "testThreshold 20 49 (\<lambda>a b. a < b) env0 dpl0 = False
   \<and> testThreshold 20 49 (\<lambda>a b. a < b) (env0\<lparr>Battery_isValid := False\<rparr>) dpl0 = True
   \<and> getLoadCorrectedVoltage env0 dpl0
       = (0, [''DPL getLoadCorrectedVoltage: no inverter (programmer error)''])
   \<and> getLoadCorrectedVoltage env0 (dpl0\<lparr>inverter := Some 1\<rparr>) = (52 + 1 / 5, [])
   \<and> testThreshold 20 49 (\<lambda>a b. a < b) (env0\<lparr>Battery_isValid := False\<rparr>)
        (dpl0\<lparr>inverter := Some 1\<rparr>) = False
   \<and> testThreshold 20 0 (\<lambda>a b. a \<ge> b) (env0\<lparr>Battery_isValid := False\<rparr>)
        (dpl0\<lparr>inverter := Some 1\<rparr>) = False"
  using testThreshold_sources [where e = "env0\<lparr>Battery_isValid := False\<rparr>"
        and s = "dpl0\<lparr>inverter := Some 1\<rparr>"
        and socThreshold = 20 and voltThreshold = 0 and compare = "\<lambda>a b. a \<ge> b"]
    testThreshold_sources [where e = env0 and s = dpl0 and socThreshold = 20
        and voltThreshold = 49 and compare = "\<lambda>a b. a < b"]
    testThreshold_sources [where e = "env0\<lparr>Battery_isValid := False\<rparr>" and s = dpl0
        and socThreshold = 20 and voltThreshold = 49 and compare = "\<lambda>a b. a < b"]
    testThreshold_sources [where e = "env0\<lparr>Battery_isValid := False\<rparr>"
        and s = "dpl0\<lparr>inverter := Some 1\<rparr>"
        and socThreshold = 20 and voltThreshold = 49 and compare = "\<lambda>a b. a < b"]
    testThreshold_sources [where e = env0 and s = "dpl0\<lparr>inverter := Some 1\<rparr>"
        and socThreshold = 20 and voltThreshold = 49 and compare = "\<lambda>a b. a < b"]
  by (simp add: env0_def dpl0_def cfg0_def inv0_def)

subsection \<open>C9: the next inverter restart\<close>

text \<open>
  C9: a negative restart hour fixes \<^verbatim>\<open>_nextInverterRestart\<close> at 1. Otherwise, with the local
  time available (hour 0 to 23, minute 0 to 59, restart hour an \<^verbatim>\<open>int8_t\<close>), the deadline
  is the minutes until the configured hour times 60000 plus \<^verbatim>\<open>millis()\<close>, in \<^verbatim>\<open>uint32_t\<close>
  arithmetic, and the plain sum when that does not exceed 32 bits. The minutes are
  \<open>minutesUntilRestart\<close>: to the configured hour of today when it is later than the current
  hour, of tomorrow otherwise. For the current hour plus one that is 60 minus the current
  minute (one hour ahead at the full hour); for a configured hour not after the current
  one it is the rest of today plus the configured hour of the next day.
\<close>

theorem calcNextInverterRestart_deadline:
  "(PowerLimiter_RestartHour (config e) < 0 \<longrightarrow>
      nextInverterRestart (calcNextInverterRestart e s) = 1)
   \<and> (0 \<le> PowerLimiter_RestartHour (config e) \<and> PowerLimiter_RestartHour (config e) \<le> 127
       \<and> getLocalTime e = Some t
       \<and> 0 \<le> tm_hour t \<and> tm_hour t \<le> 23 \<and> 0 \<le> tm_min t \<and> tm_min t \<le> 59 \<longrightarrow>
      nextInverterRestart (calcNextInverterRestart e s)
        = word_of_int (minutesUntilRestart (PowerLimiter_RestartHour (config e))
                         (tm_hour t) (tm_min t)) * 60000 + millis e
      \<and> 0 < minutesUntilRestart (PowerLimiter_RestartHour (config e)) (tm_hour t) (tm_min t)
      \<and> (minutesUntilRestart (PowerLimiter_RestartHour (config e)) (tm_hour t) (tm_min t)
            * 60000 + uint (millis e) < 2 ^ 32 \<longrightarrow>
          uint (nextInverterRestart (calcNextInverterRestart e s))
            = minutesUntilRestart (PowerLimiter_RestartHour (config e)) (tm_hour t) (tm_min t)
                * 60000 + uint (millis e))
      \<and> (PowerLimiter_RestartHour (config e) = tm_hour t + 1 \<longrightarrow>
          minutesUntilRestart (PowerLimiter_RestartHour (config e)) (tm_hour t) (tm_min t)
            = 60 - tm_min t)
      \<and> (PowerLimiter_RestartHour (config e) \<le> tm_hour t \<longrightarrow>
          minutesUntilRestart (PowerLimiter_RestartHour (config e)) (tm_hour t) (tm_min t)
            = (1440 - (tm_hour t * 60 + tm_min t))
              + PowerLimiter_RestartHour (config e) * 60))"
proof (intro conjI impI)
  assume "PowerLimiter_RestartHour (config e) < 0"
  then show "nextInverterRestart (calcNextInverterRestart e s) = 1"
    by (simp add: calcNextInverterRestart_def)
next
  assume a: "0 \<le> PowerLimiter_RestartHour (config e) \<and> PowerLimiter_RestartHour (config e) \<le> 127
       \<and> getLocalTime e = Some t
       \<and> 0 \<le> tm_hour t \<and> tm_hour t \<le> 23 \<and> 0 \<le> tm_min t \<and> tm_min t \<le> 59"
  then show eq: "nextInverterRestart (calcNextInverterRestart e s)
        = word_of_int (minutesUntilRestart (PowerLimiter_RestartHour (config e))
                         (tm_hour t) (tm_min t)) * 60000 + millis e"
    by (intro calcNextInverterRestart_minutes) auto
  from a show pos: "0 < minutesUntilRestart (PowerLimiter_RestartHour (config e)) (tm_hour t) (tm_min t)"
    by (intro minutesUntilRestart_bounds) auto
  {
    assume "minutesUntilRestart (PowerLimiter_RestartHour (config e)) (tm_hour t) (tm_min t)
            * 60000 + uint (millis e) < 2 ^ 32"
    with pos show "uint (nextInverterRestart (calcNextInverterRestart e s))
            = minutesUntilRestart (PowerLimiter_RestartHour (config e)) (tm_hour t) (tm_min t)
                * 60000 + uint (millis e)"
      unfolding eq by (intro uint_restart_no_wrap) auto
  }
  {
    assume "PowerLimiter_RestartHour (config e) = tm_hour t + 1"
    then show "minutesUntilRestart (PowerLimiter_RestartHour (config e)) (tm_hour t) (tm_min t)
            = 60 - tm_min t"
      by (simp add: minutesUntilRestart_def)
  }
  {
    assume "PowerLimiter_RestartHour (config e) \<le> tm_hour t"
    then show "minutesUntilRestart (PowerLimiter_RestartHour (config e)) (tm_hour t) (tm_min t)
            = (1440 - (tm_hour t * 60 + tm_min t))
              + PowerLimiter_RestartHour (config e) * 60"
      by (simp add: minutesUntilRestart_def algebra_simps)
  }
qed



theorem calcNextInverterRestart_deadline_witness:
  "nextInverterRestart (calcNextInverterRestart env0 dpl1) = 1
   \<and> nextInverterRestart (calcNextInverterRestart (env_restart 11) dpl1) = 1810000
   \<and> uint (nextInverterRestart (calcNextInverterRestart (env_restart 11) dpl1))
       = 30 * 60000 + 10000
   \<and> nextInverterRestart (calcNextInverterRestart (env_restart 9) dpl1) = 81010000
   \<and> minutesUntilRestart 9 10 30 = 1350
   \<and> nextInverterRestart (calcNextInverterRestart (env_restart 10) dpl1) = 84610000"
  using calcNextInverterRestart_deadline [of env0 dpl1 "\<lparr>tm_hour = 10, tm_min = 30\<rparr>"]
    calcNextInverterRestart_deadline [of "env_restart 11" dpl1 "\<lparr>tm_hour = 10, tm_min = 30\<rparr>"]
    calcNextInverterRestart_deadline [of "env_restart 9" dpl1 "\<lparr>tm_hour = 10, tm_min = 30\<rparr>"]
    calcNextInverterRestart_deadline [of "env_restart 10" dpl1 "\<lparr>tm_hour = 10, tm_min = 30\<rparr>"]
  by (simp add: minutesUntilRestart_def env_restart_def env0_def cfg0_def)

subsection \<open>C10: the unconditional full solar passthrough\<close>

text \<open>
  C10, as the claim states it, fails: a tick that reaches the test of the mode with
  \<^verbatim>\<open>Mode::UnconditionalFullSolarPassthrough\<close> while the solar charger is disabled in the
  configuration computes no limit. It calls \<^verbatim>\<open>shutdown(Status::NoVeDirect)\<close>, which here
  stops the inverter with the lower power limit, and the status is \<open>NoVeDirect\<close>.
\<close>

theorem loop_unconditional_no_vedirect_counterexample:
  "loop_inverter env_no_vedirect dpl_unconditional
     = Inr (1, dpl_unconditional\<lparr>verboseLogging := False, inverter := Some 1\<rparr>)
   \<and> mode dpl_unconditional = UnconditionalFullSolarPassthrough
   \<and> lastStatus (loop hdr0 env_no_vedirect dpl_unconditional) = NoVeDirect
   \<and> out (loop hdr0 env_no_vedirect dpl_unconditional)
       = [StatusPrinted NoVeDirect, PowerControlRequest 1 False,
          ActivePowerControlRequest 1 10 AbsolutNonPersistent]"
  by (simp add: loop_def loop_inverter_def unconditionalSolarPassthrough_def shutdown_def
      announceStatus_def commitPowerLimit_def Let_def
      env_no_vedirect_def dpl_unconditional_def env0_def cfg0_def inv0_def dpl0_def)

text \<open>
  C10, amended: on every tick that reaches the test of the mode (\<open>loop_inverter\<close> returns
  \<open>Inr\<close>) with \<^verbatim>\<open>Mode::UnconditionalFullSolarPassthrough\<close>: when the solar charger is
  enabled and its data valid, the loop hands the AC equivalent of solar voltage times
  current to \<^verbatim>\<open>setNewPowerLimit\<close>, announces \<open>UnconditionalSolarPassthrough\<close> and returns;
  otherwise it returns what \<^verbatim>\<open>shutdown(Status::NoVeDirect)\<close> leaves. In both cases the
  power meter is not consulted: its reading, its time stamp and its enabling in the
  configuration do not change the result.
\<close>

theorem loop_unconditional_passthrough:
  "loop_inverter e s = Inr (iv, sb) \<and> mode s = UnconditionalFullSolarPassthrough \<longrightarrow>
     (Vedirect_Enabled (config e) \<and> VeDirectMppt_isDataValid e \<longrightarrow>
        loop h e s
          = announceStatus UnconditionalSolarPassthrough e
              (snd (setNewPowerLimit iv
                      (inverterPowerDcToAc iv (c_trunc (veFrame_V e * veFrame_I e)) e) e sb))
        \<and> lastStatus (loop h e s) = UnconditionalSolarPassthrough)
     \<and> (\<not> (Vedirect_Enabled (config e) \<and> VeDirectMppt_isDataValid e) \<longrightarrow>
        loop h e s = snd (shutdown NoVeDirect e sb))
     \<and> loop h (e\<lparr>PowerMeter_getPowerTotal := p, PowerMeter_getLastPowerMeterUpdate := u,
                  config := (config e)\<lparr>PowerMeter_Enabled := b\<rparr>\<rparr>) s
       = loop h e s"
proof (intro impI)
  assume a: "loop_inverter e s = Inr (iv, sb) \<and> mode s = UnconditionalFullSolarPassthrough"
  let ?e' = "e\<lparr>PowerMeter_getPowerTotal := p, PowerMeter_getLastPowerMeterUpdate := u,
                  config := (config e)\<lparr>PowerMeter_Enabled := b\<rparr>\<rparr>"
  from a have l: "loop h e s = unconditionalSolarPassthrough iv e sb"
    by (intro loop_in_unconditional_mode) auto
  from a have "loop_inverter ?e' s = Inr (iv, sb)"
    by (simp add: meter_free_functions)
  with a have "loop h ?e' s = unconditionalSolarPassthrough iv ?e' sb"
    by (intro loop_in_unconditional_mode) auto
  with l have same: "loop h ?e' s = loop h e s"
    by (simp add: meter_free_functions)
  show "(Vedirect_Enabled (config e) \<and> VeDirectMppt_isDataValid e \<longrightarrow>
        loop h e s
          = announceStatus UnconditionalSolarPassthrough e
              (snd (setNewPowerLimit iv
                      (inverterPowerDcToAc iv (c_trunc (veFrame_V e * veFrame_I e)) e) e sb))
        \<and> lastStatus (loop h e s) = UnconditionalSolarPassthrough)
     \<and> (\<not> (Vedirect_Enabled (config e) \<and> VeDirectMppt_isDataValid e) \<longrightarrow>
        loop h e s = snd (shutdown NoVeDirect e sb))
     \<and> loop h ?e' s = loop h e s"
    using same by (auto simp add: l unconditionalSolarPassthrough_def Let_def)
qed

theorem loop_unconditional_passthrough_witness:
  "out (loop hdr0 env0 dpl_unconditional)
     = [ActivePowerControlRequest 1 582 AbsolutNonPersistent,
        StatusPrinted UnconditionalSolarPassthrough]
   \<and> lastStatus (loop hdr0 env0 dpl_unconditional) = UnconditionalSolarPassthrough
   \<and> loop hdr0 (env0\<lparr>PowerMeter_getPowerTotal := 12345,
                      PowerMeter_getLastPowerMeterUpdate := 0,
                      config := (config env0)\<lparr>PowerMeter_Enabled := False\<rparr>\<rparr>) dpl_unconditional
     = loop hdr0 env0 dpl_unconditional
   \<and> loop hdr0 env_no_vedirect dpl_unconditional
     = snd (shutdown NoVeDirect env_no_vedirect
              (dpl_unconditional\<lparr>verboseLogging := False, inverter := Some 1\<rparr>))"
  using loop_unconditional_passthrough [where e = env0 and s = dpl_unconditional and iv = 1
      and sb = "dpl_unconditional\<lparr>verboseLogging := False, inverter := Some 1\<rparr>"
      and h = hdr0 and p = 12345 and u = 0 and b = False]
    loop_unconditional_passthrough [where e = env_no_vedirect and s = dpl_unconditional
      and iv = 1
      and sb = "dpl_unconditional\<lparr>verboseLogging := False, inverter := Some 1\<rparr>"
      and h = hdr0 and p = 12345 and u = 0 and b = False]
  by (simp add: loop_inverter_def setNewPowerLimit_def effPowerLimit_def
      inverterPowerDcToAc_def commitPowerLimit_def announceStatus_def
      c_round_def c_trunc_def Let_def
      env_no_vedirect_def dpl_unconditional_def env0_def cfg0_def inv0_def dpl0_def)

end
